theory Spec2Isabelle
  imports Main "HOL-Library.Word"
begin

section \<open>The execution service of astriaorg/flame (grpc/execution/server.go)\<close>

text \<open>
  The gRPC server \<^verbatim>\<open>ExecutionServiceServerV1\<close> drives the derivation of rollup blocks.
  Its six procedures are embedded here as functions from the service state to a result
  and the new service state. A gRPC status error is the value \<open>Err code\<close>, a Go panic
  (an explicit \<^verbatim>\<open>panic\<close> or a nil dereference) is the value \<open>Panic\<close>. Metrics, log lines
  and the two mutexes have no effect on results and are left out.
\<close>

subsection \<open>Bytes, hashes and big integers\<close>

type_synonym byte = "8 word"
type_synonym bytes = "byte list"

text \<open>\<^verbatim>\<open>common.Hash\<close> is \<^verbatim>\<open>[32]byte\<close>, \<^verbatim>\<open>common.Address\<close> is \<^verbatim>\<open>[20]byte\<close>.\<close>

type_synonym Hash = "byte list"
type_synonym Address = "byte list"

definition HashLength :: nat where
  "HashLength = 32"

text \<open>
  \<^verbatim>\<open>common.BytesToHash\<close> of go-ethereum: a slice longer than 32 bytes is cropped from the
  left, a shorter one is padded with zero bytes on the left.
\<close>

definition BytesToHash :: "bytes \<Rightarrow> Hash" where
  "BytesToHash b =
     (let b' = (if length b > HashLength then drop (length b - HashLength) b else b)
      in replicate (HashLength - length b') 0 @ b')"

text \<open>The zero value \<^verbatim>\<open>common.Hash{}\<close>.\<close>

definition zeroHash :: Hash where
  "zeroHash = replicate HashLength 0"

text \<open>
  \<^verbatim>\<open>math/big\<close>: a \<^verbatim>\<open>*big.Int\<close> is an unbounded integer. \<^verbatim>\<open>Uint64()\<close> returns the low 64 bits
  of the absolute value, \<^verbatim>\<open>Int64()\<close> the same bits negated for a negative number, and
  \<^verbatim>\<open>big.NewInt\<close> reads an \<^verbatim>\<open>int64\<close>.
\<close>

definition bigInt_Uint64 :: "int \<Rightarrow> 64 word" where
  "bigInt_Uint64 x = word_of_int \<bar>x\<bar>"

definition bigInt_Int64 :: "int \<Rightarrow> 64 word" where
  "bigInt_Int64 x = (let v = word_of_int \<bar>x\<bar> in if x < 0 then - v else v)"

definition big_NewInt :: "64 word \<Rightarrow> int" where
  "big_NewInt v = sint v"

subsection \<open>Headers, blocks and wire messages\<close>

text \<open>
  \<^verbatim>\<open>types.Header\<close>, with the fields the server reads. The method \<^verbatim>\<open>Hash()\<close> (Keccak-256 of
  the encoded header) is the field \<open>Hash\<close>.
\<close>

record Header =
  Number :: int
  ParentHash :: Hash
  Time :: "64 word"
  Hash :: Hash

text \<open>
  The chain's safe and final pointers are \<^verbatim>\<open>*types.Header\<close> and may be nil. \<^verbatim>\<open>Hash()\<close> does
  not dereference its receiver: it hashes the RLP encoding, and a nil header is encoded as
  the empty list (the byte \<^verbatim>\<open>0xc0\<close>). \<open>nilHeaderHash\<close> is the Keccak-256 of that byte,
  \<^verbatim>\<open>1dcc4de8dec75d7aab85b567b6ccd41ad312451b948a7413f0a142fd40d49347\<close>.
\<close>

definition nilHeaderHash :: Hash where
  "nilHeaderHash =
     [29, 204, 77, 232, 222, 199, 93, 122, 171, 133, 181, 103, 182, 204, 212, 26,
      211, 18, 69, 27, 148, 138, 116, 19, 240, 161, 66, 253, 64, 212, 147, 71]"

definition Header_Hash :: "Header option \<Rightarrow> Hash" where
  "Header_Hash h = (case h of None \<Rightarrow> nilHeaderHash | Some hdr \<Rightarrow> Hash hdr)"

text \<open>\<^verbatim>\<open>types.Block\<close>: the server reads a block only through its header.\<close>

record Block =
  header :: Header

definition NumberU64 :: "Block \<Rightarrow> 64 word" where
  "NumberU64 b = bigInt_Uint64 (Number (header b))"

definition Block_Hash :: "Block \<Rightarrow> Hash" where
  "Block_Hash b = Hash (header b)"

definition Block_ParentHash :: "Block \<Rightarrow> Hash" where
  "Block_ParentHash b = ParentHash (header b)"

definition Block_Time :: "Block \<Rightarrow> 64 word" where
  "Block_Time b = Time (header b)"

text \<open>\<^verbatim>\<open>timestamppb.Timestamp\<close>: \<open>Seconds\<close> is an \<^verbatim>\<open>int64\<close>, read with \<open>sint\<close>.\<close>

record Timestamp =
  Seconds :: "64 word"

text \<open>\<^verbatim>\<open>astriaPb.Block\<close>, the wire form of a block.\<close>

record PbBlock =
  pbNumber :: "32 word"
  pbHash :: bytes
  pbParentBlockHash :: bytes
  pbTimestamp :: "Timestamp option"

text \<open>\<^verbatim>\<open>astriaPb.CommitmentState\<close>; the two blocks are pointers and may be nil.\<close>

record CommitmentState =
  Soft :: "PbBlock option"
  Firm :: "PbBlock option"
  BaseCelestiaHeight :: "64 word"

record UpdateCommitmentStateRequest =
  reqCommitmentState :: "CommitmentState option"

text \<open>\<^verbatim>\<open>sequencerblockv1.RollupData\<close>: sequenced bytes or a bridge deposit.\<close>

record Deposit =
  BridgeAddress :: string
  Asset :: string
  Amount :: nat
  RollupId :: bytes
  DestinationChainAddress :: string
  SourceTransactionId :: string
  SourceActionIndex :: "64 word"

datatype RollupData = RollupData_SequencedData bytes | RollupData_Deposit Deposit

record ExecuteBlockRequest =
  PrevBlockHash :: bytes
  Transactions :: "RollupData list"
  reqTimestamp :: "Timestamp option"
  SequencerBlockHash :: "bytes option"

text \<open>The nil-safe getters of the generated code.\<close>

definition GetSeconds :: "Timestamp option \<Rightarrow> 64 word" where
  "GetSeconds t = (case t of None \<Rightarrow> 0 | Some ts \<Rightarrow> Seconds ts)"

datatype BlockIdentifier =
    BlockIdentifier_BlockNumber "32 word"
  | BlockIdentifier_BlockHash bytes
  | BlockIdentifier_Unset

record GetBlockRequest =
  Identifier :: "BlockIdentifier option"

record GenesisInfo =
  giRollupId :: bytes
  SequencerGenesisBlockHeight :: "32 word"
  CelestiaBlockVariance :: "64 word"

datatype Code = InvalidArgument | NotFound | FailedPrecondition | PermissionDenied | Internal

datatype 'a rpc_result = OK 'a | Err Code | Panic

subsection \<open>The chain store\<close>

text \<open>
  Modelled from the spec: \<^verbatim>\<open>core.BlockChain\<close> (the spec's \<open>ChainStore\<close>) is not among the
  sources. The spec describes it as an immutable block store with the mutable head
  pointers \<open>current\<close>, \<open>safe\<close> and \<open>final\<close>, a canonical-chain mapping by height, a
  fork-capable insert without head-advance, and the persisted \<open>base_celestia_height\<close>.
  The server dereferences \<^verbatim>\<open>CurrentBlock()\<close> without a nil check and checks the safe and
  final headers for nil in \<^verbatim>\<open>ethHeaderToExecutionBlock\<close>, so only those two are optional.
\<close>

record ChainStore =
  blocks :: "Block list"
  canonical :: "64 word \<rightharpoonup> Hash"
  currentBlock :: Header
  currentSafeBlock :: "Header option"
  currentFinalBlock :: "Header option"
  baseCelestiaHeight :: "64 word"

definition GetBlockByHash :: "ChainStore \<Rightarrow> Hash \<Rightarrow> Block option" where
  "GetBlockByHash c h = find (\<lambda>b. Block_Hash b = h) (blocks c)"

definition GetHeaderByHash :: "ChainStore \<Rightarrow> Hash \<Rightarrow> Header option" where
  "GetHeaderByHash c h = map_option header (GetBlockByHash c h)"

text \<open>\<^verbatim>\<open>GetCanonicalHash\<close> returns the zero hash for a height without a canonical block.\<close>

definition GetCanonicalHash :: "ChainStore \<Rightarrow> 64 word \<Rightarrow> Hash" where
  "GetCanonicalHash c n = (case canonical c n of None \<Rightarrow> zeroHash | Some h \<Rightarrow> h)"

definition GetHeaderByNumber :: "ChainStore \<Rightarrow> 64 word \<Rightarrow> Header option" where
  "GetHeaderByNumber c n = (case canonical c n of None \<Rightarrow> None | Some h \<Rightarrow> GetHeaderByHash c h)"

text \<open>
  Modelled from the spec: the chain of a block, followed through the parent hashes of the
  stored blocks, as pairs of height and hash. The fuel bounds the walk by the number of
  stored blocks.
\<close>

fun ancestry :: "nat \<Rightarrow> Block list \<Rightarrow> Block \<Rightarrow> (64 word \<times> Hash) list" where
  "ancestry 0 bs b = [(NumberU64 b, Block_Hash b)]"
| "ancestry (Suc k) bs b =
     (NumberU64 b, Block_Hash b) #
       (case find (\<lambda>p. Block_Hash p = Block_ParentHash b) bs of
          None \<Rightarrow> []
        | Some p \<Rightarrow> ancestry k bs p)"

text \<open>
  Modelled from the spec: \<open>set_canonical(b)\<close> reorganises the canonical chain so that \<open>b\<close>
  is the new head, and may fail. When it fails is not in the sources: the failure is the
  parameter \<open>err\<close>, and a failed call leaves the store as it was.
\<close>

definition SetCanonical ::
  "(ChainStore \<Rightarrow> Block \<Rightarrow> string option) \<Rightarrow> ChainStore \<Rightarrow> Block \<Rightarrow> string + ChainStore" where
  "SetCanonical err c b =
     (case err c b of
        Some e \<Rightarrow> Inl e
      | None \<Rightarrow> Inr (c\<lparr>currentBlock := header b,
                       canonical := map_of (ancestry (length (blocks c)) (blocks c) b)\<rparr>))"

text \<open>Modelled from the spec: \<open>set_safe(header)\<close> sets the safe pointer.\<close>

definition SetSafe :: "ChainStore \<Rightarrow> Header \<Rightarrow> ChainStore" where
  "SetSafe c h = c\<lparr>currentSafeBlock := Some h\<rparr>"

text \<open>
  Modelled from the spec: \<open>set_celestia_finalized(header, height)\<close> atomically sets the
  final pointer and persists \<open>base_celestia_height\<close>.
\<close>

definition SetCelestiaFinalized :: "ChainStore \<Rightarrow> Header \<Rightarrow> 64 word \<Rightarrow> ChainStore" where
  "SetCelestiaFinalized c h celHeight = c\<lparr>currentFinalBlock := Some h, baseCelestiaHeight := celHeight\<rparr>"

text \<open>
  Modelled from the spec: the insert without head-advance appends the block to the store
  and moves no pointer; it may fail, and when is the parameter \<open>err\<close>.
\<close>

definition InsertBlockWithoutSetHead ::
  "(ChainStore \<Rightarrow> Block \<Rightarrow> string option) \<Rightarrow> ChainStore \<Rightarrow> Block \<Rightarrow> string + ChainStore" where
  "InsertBlockWithoutSetHead err c b =
     (case err c b of
        Some e \<Rightarrow> Inl e
      | None \<Rightarrow> Inr (c\<lparr>blocks := blocks c @ [b]\<rparr>))"

subsection \<open>Configuration and collaborators\<close>

text \<open>
  \<^verbatim>\<open>miner.BuildPayloadArgs\<close>. The server always passes an empty \<^verbatim>\<open>OverrideTransactions\<close>,
  which is left out.
\<close>

record BuildPayloadArgs =
  Parent :: Hash
  argTimestamp :: "64 word"
  Random :: Hash
  FeeRecipient :: Address
  IsOptimisticExecution :: bool
  BeaconRoot :: "Hash option"

text \<open>
  The chain configuration read by the server, and the collaborators whose code is not
  among the sources, as parameters: the Cancun predicate of the chain configuration, the
  bech32m check, SHA-256, the unbundler of the shared service container, the payload
  builder (which reads the chain and the ordered list staged in the transaction pool),
  the conversion of the resolved payload to a block, and the failures of the chain store.
  \<open>'tx\<close> is \<^verbatim>\<open>types.Transaction\<close> and \<open>'pl\<close> the executable payload.
\<close>

record ('tx, 'pl) Env =
  AstriaRollupName :: string
  AstriaSequencerInitialHeight :: "32 word"
  AstriaCelestiaHeightVariance :: "64 word"
  AstriaSequencerAddressPrefix :: string
  AstriaFeeCollectors :: "32 word \<rightharpoonup> Address"
  AstriaAuctioneerAddresses :: "32 word \<rightharpoonup> string"
  IsCancun :: "int \<Rightarrow> 64 word \<Rightarrow> bool"
  ValidateBech32mAddress :: "string \<Rightarrow> string \<Rightarrow> string option"
  Sum256 :: "bytes \<Rightarrow> bytes"
  UnbundleRollupDataTransactions :: "RollupData list \<Rightarrow> 64 word \<Rightarrow> bytes \<Rightarrow> 'tx list"
  BuildPayload :: "ChainStore \<Rightarrow> 'tx list \<Rightarrow> BuildPayloadArgs \<Rightarrow> string + 'pl"
  ExecutableDataToBlock :: "'pl \<Rightarrow> Hash option \<Rightarrow> string + Block"
  insertError :: "ChainStore \<Rightarrow> Block \<Rightarrow> string option"
  setCanonicalError :: "ChainStore \<Rightarrow> Block \<Rightarrow> string option"

subsection \<open>The service state\<close>

text \<open>
  Modelled from the spec: \<^verbatim>\<open>shared.SharedServiceContainer\<close> (the spec's \<open>ServiceState\<close>) is
  not among the sources. It owns the chain, the ordered list of the transaction pool,
  the synced mark of the engine, the next-fee-recipient cell, the auctioneer-address
  cell and the two handshake flags.
\<close>

record 'tx ServiceState =
  bc :: ChainStore
  astriaOrdered :: "'tx list"
  synced :: bool
  nextFeeRecipient :: Address
  auctioneerAddress :: string
  genesisInfoCalled :: bool
  getCommitmentStateCalled :: bool

definition syncMethodsCalled :: "'tx ServiceState \<Rightarrow> bool" where
  "syncMethodsCalled s \<longleftrightarrow> genesisInfoCalled s \<and> getCommitmentStateCalled s"

definition SetAstriaOrdered :: "'tx list \<Rightarrow> 'tx ServiceState \<Rightarrow> 'tx ServiceState" where
  "SetAstriaOrdered txs s = s\<lparr>astriaOrdered := txs\<rparr>"

definition ClearAstriaOrdered :: "'tx ServiceState \<Rightarrow> 'tx ServiceState" where
  "ClearAstriaOrdered s = s\<lparr>astriaOrdered := []\<rparr>"

definition setNextFeeRecipient :: "Address \<Rightarrow> 'tx ServiceState \<Rightarrow> 'tx ServiceState" where
  "setNextFeeRecipient a s = s\<lparr>nextFeeRecipient := a\<rparr>"

definition setAuctioneerAddress :: "string \<Rightarrow> 'tx ServiceState \<Rightarrow> 'tx ServiceState" where
  "setAuctioneerAddress a s = s\<lparr>auctioneerAddress := a\<rparr>"

subsection \<open>Static validation\<close>

text \<open>
  Modelled from the spec: \<^verbatim>\<open>validateStaticExecuteBlockRequest\<close> is not among the sources.
  It takes the request alone. The spec: \<open>prev_block_hash\<close> is 32 bytes and
  \<open>timestamp.seconds > 0\<close>. The result is the error, if any.
\<close>

definition validateStaticExecuteBlockRequest :: "ExecuteBlockRequest \<Rightarrow> string option" where
  "validateStaticExecuteBlockRequest req =
     (if length (PrevBlockHash req) \<noteq> 32 then Some ''PrevBlockHash must be 32 bytes''
      else if \<not> 0 <s GetSeconds (reqTimestamp req) then Some ''Timestamp must be positive''
      else None)"

text \<open>
  Modelled from the spec: \<^verbatim>\<open>validateStaticCommitmentState\<close> is not among the sources. The
  spec: both \<open>soft.hash\<close> and \<open>firm.hash\<close> are 32 bytes and \<open>base_celestia_height\<close> is
  present (the field is a plain \<^verbatim>\<open>uint64\<close>, whose absent value is 0).
\<close>

definition validateStaticBlock :: "PbBlock option \<Rightarrow> bool" where
  "validateStaticBlock b = (case b of None \<Rightarrow> False | Some blk \<Rightarrow> length (pbHash blk) = 32)"

definition validateStaticCommitmentState :: "CommitmentState option \<Rightarrow> string option" where
  "validateStaticCommitmentState cs =
     (case cs of
        None \<Rightarrow> Some ''commitment state is nil''
      | Some c \<Rightarrow>
          if \<not> validateStaticBlock (Soft c) then Some ''soft block invalid''
          else if \<not> validateStaticBlock (Firm c) then Some ''firm block invalid''
          else if BaseCelestiaHeight c = 0 then Some ''base celestia height is absent''
          else None)"

subsection \<open>ExecuteBlock\<close>

text \<open>
  \<^verbatim>\<open>ExecuteBlock\<close> (line 166) and \<^verbatim>\<open>UpdateCommitmentState\<close> (lines 345 and 350) call
  \<^verbatim>\<open>Hash()\<close> on the safe and final headers without a nil check. On a nil header the call
  returns \<open>nilHeaderHash\<close> and the procedure goes on.
\<close>

text \<open>
  Lines 174 to 181: the beacon root of the payload. Under Cancun a missing sequencer block
  hash is an error; otherwise the hash of the request is not read.
\<close>

definition sequencerHashRef ::
  "('tx, 'pl) Env \<Rightarrow> 64 word \<Rightarrow> ExecuteBlockRequest \<Rightarrow> unit + Hash option" where
  "sequencerHashRef env height req =
     (if IsCancun env (big_NewInt height) (GetSeconds (reqTimestamp req)) then
        (case SequencerBlockHash req of
           None \<Rightarrow> Inl ()
         | Some h \<Rightarrow> Inr (Some (BytesToHash h)))
      else Inr None)"

text \<open>
  Lines 232 to 242: after the block is inserted, the fee recipient and the auctioneer
  address configured for the next height are stored. The result of the bech32m check is
  only logged; the address is stored on both branches.
\<close>

definition postAdvanceConfig ::
  "('tx, 'pl) Env \<Rightarrow> string \<Rightarrow> 32 word \<Rightarrow> 'tx ServiceState \<Rightarrow> 'tx ServiceState" where
  "postAdvanceConfig env addressPrefix resNumber s =
     (let s1 = (case AstriaFeeCollectors env (resNumber + 1) of
                  Some next \<Rightarrow> setNextFeeRecipient next s
                | None \<Rightarrow> s)
      in case AstriaAuctioneerAddresses env (resNumber + 1) of
           Some address \<Rightarrow>
             (case ValidateBech32mAddress env address addressPrefix of
                Some err \<Rightarrow> setAuctioneerAddress address s1
              | None \<Rightarrow> setAuctioneerAddress address s1)
         | None \<Rightarrow> s1)"

definition ExecuteBlock ::
  "('tx, 'pl) Env \<Rightarrow> 'tx ServiceState \<Rightarrow> ExecuteBlockRequest \<Rightarrow> PbBlock rpc_result \<times> 'tx ServiceState" where
  "ExecuteBlock env s req =
     (case validateStaticExecuteBlockRequest req of
        Some err \<Rightarrow> (Err InvalidArgument, s)
      | None \<Rightarrow>
         (if \<not> syncMethodsCalled s then (Err PermissionDenied, s)
          else
            let prevHeadHash = BytesToHash (PrevBlockHash req) in
            (let softHash = Header_Hash (currentSafeBlock (bc s)) in
                (if prevHeadHash \<noteq> softHash then (Err FailedPrecondition, s)
                 else
                   let height = bigInt_Uint64 (Number (currentBlock (bc s))) + 1 in
                   (case sequencerHashRef env height req of
                      Inl u \<Rightarrow> (Err InvalidArgument, s)
                    | Inr seqHashRef \<Rightarrow>
                       (let addressPrefix = AstriaSequencerAddressPrefix env;
                            txsToProcess = UnbundleRollupDataTransactions env (Transactions req) height prevHeadHash;
                            s1 = SetAstriaOrdered txsToProcess s;
                            payloadAttributes = \<lparr>Parent = prevHeadHash,
                                                 argTimestamp = GetSeconds (reqTimestamp req),
                                                 Random = zeroHash,
                                                 FeeRecipient = nextFeeRecipient s1,
                                                 IsOptimisticExecution = False,
                                                 BeaconRoot = seqHashRef\<rparr>
                        in (case BuildPayload env (bc s1) (astriaOrdered s1) payloadAttributes of
                              Inl err \<Rightarrow> (Err InvalidArgument, s1)
                            | Inr payload \<Rightarrow>
                               (case ExecutableDataToBlock env payload seqHashRef of
                                  Inl err \<Rightarrow> (Err Internal, s1)
                                | Inr block \<Rightarrow>
                                   (case InsertBlockWithoutSetHead (insertError env) (bc s1) block of
                                      Inl err \<Rightarrow> (Err Internal, s1)
                                    | Inr c' \<Rightarrow>
                                       (let s2 = ClearAstriaOrdered (s1\<lparr>bc := c'\<rparr>);
                                            res = \<lparr>pbNumber = ucast (NumberU64 block),
                                                   pbHash = Block_Hash block,
                                                   pbParentBlockHash = Block_ParentHash block,
                                                   pbTimestamp = Some \<lparr>Seconds = Block_Time block\<rparr>\<rparr>
                                        in (OK res, postAdvanceConfig env addressPrefix (pbNumber res) s2)))))))))))"

subsection \<open>Queries\<close>

text \<open>\<^verbatim>\<open>[]byte(name)\<close>: the bytes of a string.\<close>

definition bytesOfString :: "string \<Rightarrow> bytes" where
  "bytesOfString str = map (\<lambda>c. of_nat (of_char c)) str"

definition GetGenesisInfo ::
  "('tx, 'pl) Env \<Rightarrow> 'tx ServiceState \<Rightarrow> GenesisInfo rpc_result \<times> 'tx ServiceState" where
  "GetGenesisInfo env s =
     (let rollupHash = Sum256 env (bytesOfString (AstriaRollupName env));
          res = \<lparr>giRollupId = rollupHash,
                 SequencerGenesisBlockHeight = AstriaSequencerInitialHeight env,
                 CelestiaBlockVariance = AstriaCelestiaHeightVariance env\<rparr>
      in (OK res, s\<lparr>genesisInfoCalled := True\<rparr>))"

definition ethHeaderToExecutionBlock :: "Header option \<Rightarrow> string + PbBlock" where
  "ethHeaderToExecutionBlock hdr =
     (case hdr of
        None \<Rightarrow> Inl ''cannot convert nil header to execution block''
      | Some h \<Rightarrow>
          Inr \<lparr>pbNumber = ucast (bigInt_Int64 (Number h)),
               pbHash = Hash h,
               pbParentBlockHash = ParentHash h,
               pbTimestamp = Some \<lparr>Seconds = Time h\<rparr>\<rparr>)"

definition getBlockFromIdentifier :: "ChainStore \<Rightarrow> BlockIdentifier \<Rightarrow> Code + PbBlock" where
  "getBlockFromIdentifier c identifier =
     (case (case identifier of
              BlockIdentifier_BlockNumber n \<Rightarrow> Inr (GetHeaderByNumber c (ucast n))
            | BlockIdentifier_BlockHash h \<Rightarrow> Inr (GetHeaderByHash c (BytesToHash h))
            | BlockIdentifier_Unset \<Rightarrow> Inl InvalidArgument) of
        Inl e \<Rightarrow> Inl e
      | Inr hdr \<Rightarrow>
         (case hdr of
            None \<Rightarrow> Inl NotFound
          | Some h \<Rightarrow>
             (case ethHeaderToExecutionBlock (Some h) of
                Inl err \<Rightarrow> Inl Internal
              | Inr res \<Rightarrow> Inr res)))"

definition GetBlock ::
  "'tx ServiceState \<Rightarrow> GetBlockRequest \<Rightarrow> PbBlock rpc_result \<times> 'tx ServiceState" where
  "GetBlock s req =
     (case Identifier req of
        None \<Rightarrow> (Err InvalidArgument, s)
      | Some identifier \<Rightarrow>
         (case getBlockFromIdentifier (bc s) identifier of
            Inl e \<Rightarrow> (Err e, s)
          | Inr res \<Rightarrow> (OK res, s)))"

text \<open>The loop of \<^verbatim>\<open>BatchGetBlocks\<close>: the first identifier that fails ends the call.\<close>

fun batchGetBlocksLoop :: "ChainStore \<Rightarrow> BlockIdentifier list \<Rightarrow> PbBlock list \<Rightarrow> Code + PbBlock list" where
  "batchGetBlocksLoop c [] blks = Inr blks"
| "batchGetBlocksLoop c (identifier # ids) blks =
     (case getBlockFromIdentifier c identifier of
        Inl e \<Rightarrow> Inl e
      | Inr block \<Rightarrow> batchGetBlocksLoop c ids (blks @ [block]))"

definition BatchGetBlocks ::
  "'tx ServiceState \<Rightarrow> BlockIdentifier list \<Rightarrow> PbBlock list rpc_result \<times> 'tx ServiceState" where
  "BatchGetBlocks s identifiers =
     (if length identifiers = 0 then (Err InvalidArgument, s)
      else (case batchGetBlocksLoop (bc s) identifiers [] of
              Inl e \<Rightarrow> (Err e, s)
            | Inr blks \<Rightarrow> (OK blks, s)))"

subsection \<open>The commitment state\<close>

definition GetCommitmentState ::
  "'tx ServiceState \<Rightarrow> CommitmentState rpc_result \<times> 'tx ServiceState" where
  "GetCommitmentState s =
     (case ethHeaderToExecutionBlock (currentSafeBlock (bc s)) of
        Inl err \<Rightarrow> (Err Internal, s)
      | Inr softBlock \<Rightarrow>
         (case ethHeaderToExecutionBlock (currentFinalBlock (bc s)) of
            Inl err \<Rightarrow> (Err Internal, s)
          | Inr firmBlock \<Rightarrow>
             (let celestiaBlock = baseCelestiaHeight (bc s);
                  res = \<lparr>Soft = Some softBlock, Firm = Some firmBlock,
                         BaseCelestiaHeight = celestiaBlock\<rparr>
              in (OK res, s\<lparr>getCommitmentStateCalled := True\<rparr>))))"

text \<open>
  Lines 342 to 359: once the request is validated against the chain \<open>c\<close> (the chain after
  the canonical head was moved to the soft block), the engine is marked synced and the
  safe and final pointers are moved where they differ from the request.
\<close>

definition commitPointers ::
  "'tx ServiceState \<Rightarrow> ChainStore \<Rightarrow> CommitmentState \<Rightarrow> Hash \<Rightarrow> Hash \<Rightarrow> Block \<Rightarrow> Block \<Rightarrow>
     CommitmentState rpc_result \<times> 'tx ServiceState" where
  "commitPointers s c cs softEthHash firmEthHash softBlock firmBlock =
     (let s1 = s\<lparr>bc := c, synced := True\<rparr>;
          currentSafe = Header_Hash (currentSafeBlock c);
          c2 = (if currentSafe \<noteq> softEthHash then SetSafe c (header softBlock) else c);
          currentFirm = Header_Hash (currentFinalBlock c2);
          c3 = (if currentFirm \<noteq> firmEthHash
                then SetCelestiaFinalized c2 (header firmBlock) (BaseCelestiaHeight cs)
                else c2)
      in (OK cs, s1\<lparr>bc := c3\<rparr>))"

text \<open>
  Lines 330 to 340: the firm block is not on the canonical chain of the soft block. The
  head is set back to the block of the head hash recorded before; a failure of that
  (or a nil rollback block, which \<^verbatim>\<open>SetCanonical\<close> dereferences) panics.
\<close>

definition rollbackCanonical ::
  "('tx, 'pl) Env \<Rightarrow> 'tx ServiceState \<Rightarrow> ChainStore \<Rightarrow> Block option \<Rightarrow>
     CommitmentState rpc_result \<times> 'tx ServiceState" where
  "rollbackCanonical env s c rollbackBlock =
     (case rollbackBlock of
        None \<Rightarrow> (Panic, s\<lparr>bc := c\<rparr>)
      | Some rb \<Rightarrow>
         (case SetCanonical (setCanonicalError env) c rb of
            Inl err \<Rightarrow> (Panic, s\<lparr>bc := c\<rparr>)
          | Inr c' \<Rightarrow> (Err InvalidArgument, s\<lparr>bc := c'\<rparr>)))"

definition UpdateCommitmentState ::
  "('tx, 'pl) Env \<Rightarrow> 'tx ServiceState \<Rightarrow> UpdateCommitmentStateRequest \<Rightarrow>
     CommitmentState rpc_result \<times> 'tx ServiceState" where
  "UpdateCommitmentState env s req =
     (case validateStaticCommitmentState (reqCommitmentState req) of
        Some err \<Rightarrow> (Err InvalidArgument, s)
      | None \<Rightarrow>
         (case reqCommitmentState req of
            None \<Rightarrow> (Panic, s)
          | Some cs \<Rightarrow>
             (case Soft cs of
                None \<Rightarrow> (Panic, s)
              | Some soft \<Rightarrow>
                 (case Firm cs of
                    None \<Rightarrow> (Panic, s)
                  | Some firm \<Rightarrow>
                     (if \<not> syncMethodsCalled s then (Err PermissionDenied, s)
                      else if baseCelestiaHeight (bc s) > BaseCelestiaHeight cs then (Err InvalidArgument, s)
                      else
                        let softEthHash = BytesToHash (pbHash soft);
                            firmEthHash = BytesToHash (pbHash firm)
                        in (case GetBlockByHash (bc s) softEthHash of
                              None \<Rightarrow> (Err InvalidArgument, s)
                            | Some softBlock \<Rightarrow>
                               (case GetBlockByHash (bc s) firmEthHash of
                                  None \<Rightarrow> (Err InvalidArgument, s)
                                | Some firmBlock \<Rightarrow>
                                   (let currentHead = Hash (currentBlock (bc s)) in
                                    (case (if currentHead \<noteq> softEthHash
                                           then SetCanonical (setCanonicalError env) (bc s) softBlock
                                           else Inr (bc s)) of
                                       Inl err \<Rightarrow> (Err Internal, s)
                                     | Inr c1 \<Rightarrow>
                                        (let rollbackBlock = GetBlockByHash c1 currentHead in
                                         if GetCanonicalHash c1 (NumberU64 firmBlock) \<noteq> firmEthHash
                                         then rollbackCanonical env s c1 rollbackBlock
                                         else commitPointers s c1 cs softEthHash firmEthHash softBlock firmBlock))))))))))"

subsection \<open>Sequences of calls\<close>

text \<open>
  The service as a state machine: the conductor's calls, served one after the other. A
  panic aborts the process, so no later call is served.
\<close>

datatype Call =
    Call_GetGenesisInfo
  | Call_GetBlock GetBlockRequest
  | Call_BatchGetBlocks "BlockIdentifier list"
  | Call_ExecuteBlock ExecuteBlockRequest
  | Call_GetCommitmentState
  | Call_UpdateCommitmentState UpdateCommitmentStateRequest

datatype Status = Accepted | Failed Code | Aborted

definition statusOf :: "'a rpc_result \<Rightarrow> Status" where
  "statusOf r = (case r of OK x \<Rightarrow> Accepted | Err c \<Rightarrow> Failed c | Panic \<Rightarrow> Aborted)"

definition serve :: "('tx, 'pl) Env \<Rightarrow> 'tx ServiceState \<Rightarrow> Call \<Rightarrow> Status \<times> 'tx ServiceState" where
  "serve env s call =
     (case call of
        Call_GetGenesisInfo \<Rightarrow> (let (r, s') = GetGenesisInfo env s in (statusOf r, s'))
      | Call_GetBlock req \<Rightarrow> (let (r, s') = GetBlock s req in (statusOf r, s'))
      | Call_BatchGetBlocks ids \<Rightarrow> (let (r, s') = BatchGetBlocks s ids in (statusOf r, s'))
      | Call_ExecuteBlock req \<Rightarrow> (let (r, s') = ExecuteBlock env s req in (statusOf r, s'))
      | Call_GetCommitmentState \<Rightarrow> (let (r, s') = GetCommitmentState s in (statusOf r, s'))
      | Call_UpdateCommitmentState req \<Rightarrow> (let (r, s') = UpdateCommitmentState env s req in (statusOf r, s')))"

fun run :: "('tx, 'pl) Env \<Rightarrow> 'tx ServiceState \<Rightarrow> Call list \<Rightarrow> (Call \<times> Status) list \<times> 'tx ServiceState" where
  "run env s [] = ([], s)"
| "run env s (call # calls) =
     (let (st, s') = serve env s call in
      if st = Aborted then ([(call, st)], s')
      else (let (tr, s'') = run env s' calls in ((call, st) # tr, s'')))"

definition gated :: "Call \<Rightarrow> bool" where
  "gated call = (case call of Call_ExecuteBlock req \<Rightarrow> True | Call_UpdateCommitmentState req \<Rightarrow> True | _ \<Rightarrow> False)"

subsection \<open>Statements of the specification\<close>


text \<open>
  Modelled from the spec: the payload builder (\<^verbatim>\<open>Miner().BuildPayload\<close> followed by
  \<^verbatim>\<open>engine.ExecutableDataToBlock\<close>, the spec's \<open>StateMachine\<close>) is not among the sources.
  It takes a payload-build request with a parent and returns an executed block; a block
  built on a stored parent names it as its parent and stands one above it.
\<close>

definition buildsOnParent :: "('tx, 'pl) Env \<Rightarrow> bool" where
  "buildsOnParent env \<longleftrightarrow>
     (\<forall>c txs args pl r blk p.
        BuildPayload env c txs args = Inr pl \<longrightarrow> ExecutableDataToBlock env pl r = Inr blk \<longrightarrow>
        GetHeaderByHash c (Parent args) = Some p \<longrightarrow>
        Block_ParentHash blk = Parent args \<and> Number (header blk) = Number p + 1)"

subsection \<open>A small chain for concrete runs\<close>

text \<open>
  Hashes that repeat one byte, a main chain of three blocks (hashes 1, 2, 3) and a fork of
  two blocks (hashes 12, 13) on the genesis block. The head and the safe pointer are the
  tip of the main chain, the final pointer is its middle block.
\<close>

definition hashN :: "byte \<Rightarrow> Hash" where
  "hashN k = replicate 32 k"

definition mkBlock :: "int \<Rightarrow> byte \<Rightarrow> byte \<Rightarrow> Block" where
  "mkBlock n parent h =
     \<lparr>header = \<lparr>Number = n, ParentHash = hashN parent, Time = word_of_int (10 * n), Hash = hashN h\<rparr>\<rparr>"

definition testChain :: ChainStore where
  "testChain =
     \<lparr>blocks = [mkBlock 0 0 1, mkBlock 1 1 2, mkBlock 2 2 3, mkBlock 1 1 12, mkBlock 2 12 13],
      canonical = map_of [(0, hashN 1), (1, hashN 2), (2, hashN 3)],
      currentBlock = header (mkBlock 2 2 3),
      currentSafeBlock = Some (header (mkBlock 2 2 3)),
      currentFinalBlock = Some (header (mkBlock 1 1 2)),
      baseCelestiaHeight = 5\<rparr>"

text \<open>
  A payload builder for the runs: the block stands one above its stored parent, and its
  hash moves with the parent, the fee recipient and the number of staged transactions.
\<close>

definition testBuildPayload :: "ChainStore \<Rightarrow> bytes list \<Rightarrow> BuildPayloadArgs \<Rightarrow> string + Block" where
  "testBuildPayload c txs args =
     (case GetHeaderByHash c (Parent args) of
        None \<Rightarrow> Inl ''unknown parent''
      | Some p \<Rightarrow>
          Inr \<lparr>header = \<lparr>Number = Number p + 1, ParentHash = Parent args, Time = argTimestamp args,
                          Hash = map (\<lambda>x. x + 100 + of_nat (length txs) + hd (FeeRecipient args))
                                     (Parent args)\<rparr>\<rparr>)"

text \<open>
  The bech32m check of the runs accepts an address that starts with the prefix and the
  separator \<open>1\<close>, which every bech32m address under that prefix does.
\<close>

definition testValidateBech32mAddress :: "string \<Rightarrow> string \<Rightarrow> string option" where
  "testValidateBech32mAddress address prefix =
     (if take (length prefix + 1) address = prefix @ ''1'' then None
      else Some ''invalid bech32m address'')"

definition testUnbundle :: "RollupData list \<Rightarrow> 64 word \<Rightarrow> bytes \<Rightarrow> bytes list" where
  "testUnbundle txs height prevBlockHash =
     map (\<lambda>t. case t of RollupData_SequencedData d \<Rightarrow> d | RollupData_Deposit d \<Rightarrow> prevBlockHash) txs"

definition testEnv :: "(bytes, Block) Env" where
  "testEnv =
     \<lparr>AstriaRollupName = ''test'',
      AstriaSequencerInitialHeight = 10,
      AstriaCelestiaHeightVariance = 10,
      AstriaSequencerAddressPrefix = ''astria'',
      AstriaFeeCollectors = Map.empty,
      AstriaAuctioneerAddresses = [4 \<mapsto> ''bogus''],
      IsCancun = (\<lambda>n t. False),
      ValidateBech32mAddress = testValidateBech32mAddress,
      Sum256 = (\<lambda>b. replicate 32 0),
      UnbundleRollupDataTransactions = testUnbundle,
      BuildPayload = testBuildPayload,
      ExecutableDataToBlock = (\<lambda>pl r. Inr pl),
      insertError = (\<lambda>c b. None),
      setCanonicalError = (\<lambda>c b. None)\<rparr>"

text \<open>A service state after the handshake, and one before it.\<close>

definition testState :: "bytes ServiceState" where
  "testState =
     \<lparr>bc = testChain, astriaOrdered = [], synced = False, nextFeeRecipient = replicate 20 7,
      auctioneerAddress = ''astria1old'', genesisInfoCalled = True,
      getCommitmentStateCalled = True\<rparr>"

definition freshState :: "bytes ServiceState" where
  "freshState = testState\<lparr>genesisInfoCalled := False, getCommitmentStateCalled := False\<rparr>"

definition testRequest :: ExecuteBlockRequest where
  "testRequest =
     \<lparr>PrevBlockHash = hashN 3, Transactions = [RollupData_SequencedData [1, 2]],
      reqTimestamp = Some \<lparr>Seconds = 30\<rparr>, SequencerBlockHash = None\<rparr>"

definition wireBlock :: "32 word \<Rightarrow> byte \<Rightarrow> byte \<Rightarrow> PbBlock" where
  "wireBlock n parent h =
     \<lparr>pbNumber = n, pbHash = hashN h, pbParentBlockHash = hashN parent,
      pbTimestamp = Some \<lparr>Seconds = 10 * ucast n\<rparr>\<rparr>"

definition testUpdate :: "PbBlock \<Rightarrow> PbBlock \<Rightarrow> 64 word \<Rightarrow> UpdateCommitmentStateRequest" where
  "testUpdate soft firm celHeight =
     \<lparr>reqCommitmentState = Some \<lparr>Soft = Some soft, Firm = Some firm, BaseCelestiaHeight = celHeight\<rparr>\<rparr>"

text \<open>A configuration whose chain refuses to make the main tip canonical again.\<close>

definition stoppedEnv :: "(bytes, Block) Env" where
  "stoppedEnv =
     testEnv\<lparr>setCanonicalError :=
       (\<lambda>c b. if Block_Hash b = hashN 3 then Some ''chain stopped'' else None)\<rparr>"

text \<open>
  A state whose soft head (block 1) lags behind the head (block 2), and a request on it.
  The head and the safe pointer also part when \<^verbatim>\<open>UpdateCommitmentState\<close> aborts after line
  324 has moved the head and before line 347 moves the safe pointer: \<open>abortedState\<close> is the
  state such a call leaves, the head on block 1 of the fork, the safe pointer on block 2.
\<close>

definition laggingState :: "bytes ServiceState" where
  "laggingState =
     testState\<lparr>bc := testChain\<lparr>currentSafeBlock := Some (header (mkBlock 1 1 2))\<rparr>\<rparr>"

definition laggingRequest :: ExecuteBlockRequest where
  "laggingRequest = testRequest\<lparr>PrevBlockHash := hashN 2\<rparr>"

definition abortedState :: "bytes ServiceState" where
  "abortedState =
     snd (UpdateCommitmentState stoppedEnv testState
            (testUpdate (wireBlock 1 1 12) (wireBlock 1 1 2) 6))"

text \<open>A state whose safe and final pointers are nil.\<close>

definition nilState :: "bytes ServiceState" where
  "nilState = testState\<lparr>bc := testChain\<lparr>currentSafeBlock := None, currentFinalBlock := None\<rparr>\<rparr>"

text \<open>
  A state with another fee recipient, and a configuration that names a fee collector for
  height 4.
\<close>

definition otherRecipientState :: "bytes ServiceState" where
  "otherRecipientState = testState\<lparr>nextFeeRecipient := replicate 20 8\<rparr>"

definition feeEnv :: "(bytes, Block) Env" where
  "feeEnv = testEnv\<lparr>AstriaFeeCollectors := [4 \<mapsto> replicate 20 8]\<rparr>"

text \<open>A chain under Cancun, and a payload builder that fails.\<close>

definition cancunEnv :: "(bytes, Block) Env" where
  "cancunEnv = testEnv\<lparr>IsCancun := (\<lambda>n t. True)\<rparr>"

definition failingEnv :: "(bytes, Block) Env" where
  "failingEnv = testEnv\<lparr>BuildPayload := (\<lambda>c txs args. Inl ''no payload'')\<rparr>"

text \<open>
  A store whose only block stands at height \<open>2 ^ 32 + 5\<close>; it is the head and both
  pointers. A request on it.
\<close>

definition tallState :: "bytes ServiceState" where
  "tallState =
     testState\<lparr>bc := \<lparr>blocks = [mkBlock 4294967301 0 77],
                        canonical = map_of [(4294967301, hashN 77)],
                        currentBlock = header (mkBlock 4294967301 0 77),
                        currentSafeBlock = Some (header (mkBlock 4294967301 0 77)),
                        currentFinalBlock = Some (header (mkBlock 4294967301 0 77)),
                        baseCelestiaHeight = 5\<rparr>\<rparr>"

definition tallRequest :: ExecuteBlockRequest where
  "tallRequest = testRequest\<lparr>PrevBlockHash := hashN 77\<rparr>"

section \<open>Properties\<close>

lemmas test_defs =
  testEnv_def testState_def freshState_def testRequest_def testChain_def mkBlock_def hashN_def
  testBuildPayload_def testValidateBech32mAddress_def testUnbundle_def wireBlock_def testUpdate_def
  stoppedEnv_def laggingState_def laggingRequest_def cancunEnv_def failingEnv_def tallState_def
  tallRequest_def abortedState_def otherRecipientState_def feeEnv_def nilState_def

lemmas model_defs =
  ExecuteBlock_def validateStaticExecuteBlockRequest_def GetSeconds_def syncMethodsCalled_def
  BytesToHash_def HashLength_def sequencerHashRef_def SetAstriaOrdered_def
  GetHeaderByHash_def GetBlockByHash_def Block_Hash_def Block_ParentHash_def Block_Time_def
  InsertBlockWithoutSetHead_def ClearAstriaOrdered_def postAdvanceConfig_def NumberU64_def
  bigInt_Uint64_def bigInt_Int64_def big_NewInt_def setAuctioneerAddress_def setNextFeeRecipient_def
  Let_def word_sless_alt zeroHash_def
  UpdateCommitmentState_def validateStaticCommitmentState_def validateStaticBlock_def
  SetCanonical_def SetSafe_def SetCelestiaFinalized_def GetCanonicalHash_def
  rollbackCanonical_def commitPointers_def GetCommitmentState_def ethHeaderToExecutionBlock_def
  Header_Hash_def

subsection \<open>Hashes and the block store\<close>

lemma BytesToHash_32: "length b = 32 \<Longrightarrow> BytesToHash b = b"
  by (simp add: BytesToHash_def HashLength_def)

lemma GetBlockByHash_Some:
  "GetBlockByHash c h = Some b \<Longrightarrow> Block_Hash b = h \<and> b \<in> set (blocks c)"
  by (auto simp: GetBlockByHash_def find_Some_iff)

lemma rollbackCanonical_cases:
  "rollbackCanonical env s c rbo = R \<Longrightarrow>
     (\<exists>rb c'. rbo = Some rb \<and> setCanonicalError env c rb = None \<and>
         R = (Err InvalidArgument, s\<lparr>bc := c'\<rparr>) \<and> currentBlock c' = header rb)
     \<or> ((\<forall>rb. rbo = Some rb \<longrightarrow> setCanonicalError env c rb \<noteq> None) \<and> R = (Panic, s\<lparr>bc := c\<rparr>))"
  by (auto simp: rollbackCanonical_def SetCanonical_def split: option.splits)

lemma SetCanonical_Inr:
  "SetCanonical err c b = Inr c' \<Longrightarrow>
     err c b = None \<and> currentBlock c' = header b \<and> blocks c' = blocks c \<and>
     currentSafeBlock c' = currentSafeBlock c \<and> currentFinalBlock c' = currentFinalBlock c \<and>
     baseCelestiaHeight c' = baseCelestiaHeight c"
  by (auto simp: SetCanonical_def split: option.splits)

lemma validateStaticCommitmentState_None:
  "validateStaticCommitmentState r = None \<longleftrightarrow>
     (\<exists>cs soft firm. r = Some cs \<and> Soft cs = Some soft \<and> Firm cs = Some firm \<and>
        length (pbHash soft) = 32 \<and> length (pbHash firm) = 32 \<and> BaseCelestiaHeight cs \<noteq> 0)"
  by (auto simp: validateStaticCommitmentState_def validateStaticBlock_def split: option.splits)

lemma rollbackCanonical_not_OK: "rollbackCanonical env s c rbo \<noteq> (OK r, s')"
  by (auto simp: rollbackCanonical_def split: option.splits sum.splits)

text \<open>What an accepted \<^verbatim>\<open>UpdateCommitmentState\<close> went through.\<close>

lemma UpdateCommitmentState_OK_D:
  assumes "UpdateCommitmentState env s req = (OK r, s')"
  shows "\<exists>cs soft firm softBlock firmBlock c1.
     reqCommitmentState req = Some cs \<and> Soft cs = Some soft \<and> Firm cs = Some firm \<and>
     length (pbHash soft) = 32 \<and> length (pbHash firm) = 32 \<and> BaseCelestiaHeight cs \<noteq> 0 \<and>
     syncMethodsCalled s \<and> baseCelestiaHeight (bc s) \<le> BaseCelestiaHeight cs \<and>
     GetBlockByHash (bc s) (pbHash soft) = Some softBlock \<and>
     GetBlockByHash (bc s) (pbHash firm) = Some firmBlock \<and>
     ((Hash (currentBlock (bc s)) = pbHash soft \<and> c1 = bc s) \<or>
      SetCanonical (setCanonicalError env) (bc s) softBlock = Inr c1) \<and>
     GetCanonicalHash c1 (NumberU64 firmBlock) = pbHash firm \<and>
     commitPointers s c1 cs (pbHash soft) (pbHash firm) softBlock firmBlock = (OK r, s')"
proof -
  from assms have v: "validateStaticCommitmentState (reqCommitmentState req) = None"
    by (auto simp: UpdateCommitmentState_def split: option.splits)
  then obtain cs soft firm where cs: "reqCommitmentState req = Some cs" "Soft cs = Some soft"
      "Firm cs = Some firm" "length (pbHash soft) = 32" "length (pbHash firm) = 32"
      "BaseCelestiaHeight cs \<noteq> 0"
    by (auto simp: validateStaticCommitmentState_None)
  show ?thesis
    using assms v cs
    by (auto simp: UpdateCommitmentState_def Let_def BytesToHash_32 rollbackCanonical_not_OK
             split: if_splits option.splits sum.splits)
qed

lemma commitPointers_D:
  assumes "commitPointers s c cs sh fh sb fb = (r, s')"
  shows "r = OK cs \<and>
     currentSafeBlock (bc s') =
       (if Header_Hash (currentSafeBlock c) \<noteq> sh then Some (header sb) else currentSafeBlock c) \<and>
     currentFinalBlock (bc s') =
       (if Header_Hash (currentFinalBlock c) \<noteq> fh then Some (header fb) else currentFinalBlock c) \<and>
     baseCelestiaHeight (bc s') =
       (if Header_Hash (currentFinalBlock c) \<noteq> fh then BaseCelestiaHeight cs
        else baseCelestiaHeight c) \<and>
     blocks (bc s') = blocks c \<and> currentBlock (bc s') = currentBlock c \<and>
     canonical (bc s') = canonical c \<and>
     s' = s\<lparr>bc := bc s', synced := True\<rparr>"
  using assms
  by (auto simp: commitPointers_def Let_def SetSafe_def SetCelestiaFinalized_def)

lemma commitPointers_hashes:
  assumes "commitPointers s c cs sh fh sb fb = (r, s')"
    and "Block_Hash sb = sh" and "Block_Hash fb = fh"
  shows "Header_Hash (currentSafeBlock (bc s')) = sh \<and>
         Header_Hash (currentFinalBlock (bc s')) = fh"
  using commitPointers_D [OF assms(1)] assms(2,3)
  by (auto simp: Header_Hash_def Block_Hash_def)

subsection \<open>What a successful ExecuteBlock went through\<close>

lemma postAdvanceConfig_frame:
  "bc (postAdvanceConfig env p n s) = bc s \<and>
   astriaOrdered (postAdvanceConfig env p n s) = astriaOrdered s \<and>
   synced (postAdvanceConfig env p n s) = synced s \<and>
   genesisInfoCalled (postAdvanceConfig env p n s) = genesisInfoCalled s \<and>
   getCommitmentStateCalled (postAdvanceConfig env p n s) = getCommitmentStateCalled s \<and>
   nextFeeRecipient (postAdvanceConfig env p n s) =
     (case AstriaFeeCollectors env (n + 1) of Some a \<Rightarrow> a | None \<Rightarrow> nextFeeRecipient s) \<and>
   auctioneerAddress (postAdvanceConfig env p n s) =
     (case AstriaAuctioneerAddresses env (n + 1) of Some a \<Rightarrow> a | None \<Rightarrow> auctioneerAddress s)"
  by (simp add: postAdvanceConfig_def setNextFeeRecipient_def setAuctioneerAddress_def Let_def
           split: option.splits)

lemma validateStaticExecuteBlockRequest_None:
  "validateStaticExecuteBlockRequest req = None \<longleftrightarrow>
     length (PrevBlockHash req) = 32 \<and> 0 <s GetSeconds (reqTimestamp req)"
  by (simp add: validateStaticExecuteBlockRequest_def)

lemma sequencerHashRef_Inl:
  "sequencerHashRef env height req = Inl u \<longleftrightarrow>
     IsCancun env (big_NewInt height) (GetSeconds (reqTimestamp req)) \<and>
     SequencerBlockHash req = None"
  by (simp add: sequencerHashRef_def split: option.splits)

lemma ExecuteBlock_OK_D:
  assumes "ExecuteBlock env s req = (OK res, s')"
  shows "\<exists>seqRef payload block.
     length (PrevBlockHash req) = 32 \<and> 0 <s GetSeconds (reqTimestamp req) \<and>
     syncMethodsCalled s \<and> PrevBlockHash req = Header_Hash (currentSafeBlock (bc s)) \<and>
     sequencerHashRef env (bigInt_Uint64 (Number (currentBlock (bc s))) + 1) req = Inr seqRef \<and>
     BuildPayload env (bc s)
       (UnbundleRollupDataTransactions env (Transactions req)
          (bigInt_Uint64 (Number (currentBlock (bc s))) + 1) (PrevBlockHash req))
       \<lparr>Parent = PrevBlockHash req, argTimestamp = GetSeconds (reqTimestamp req),
        Random = zeroHash, FeeRecipient = nextFeeRecipient s, IsOptimisticExecution = False,
        BeaconRoot = seqRef\<rparr> = Inr payload \<and>
     ExecutableDataToBlock env payload seqRef = Inr block \<and>
     insertError env (bc s) block = None \<and>
     res = \<lparr>pbNumber = ucast (NumberU64 block), pbHash = Block_Hash block,
            pbParentBlockHash = Block_ParentHash block,
            pbTimestamp = Some \<lparr>Seconds = Block_Time block\<rparr>\<rparr> \<and>
     s' = postAdvanceConfig env (AstriaSequencerAddressPrefix env) (ucast (NumberU64 block))
            (s\<lparr>bc := (bc s)\<lparr>blocks := blocks (bc s) @ [block]\<rparr>, astriaOrdered := []\<rparr>)"
proof -
  from assms have v: "validateStaticExecuteBlockRequest req = None"
    by (auto simp: ExecuteBlock_def split: option.splits)
  then have l: "length (PrevBlockHash req) = 32" "0 <s GetSeconds (reqTimestamp req)"
    by (simp_all add: validateStaticExecuteBlockRequest_None)
  show ?thesis
    using assms v l
    by (auto simp: ExecuteBlock_def Let_def BytesToHash_32 SetAstriaOrdered_def
                   ClearAstriaOrdered_def InsertBlockWithoutSetHead_def
             split: if_splits option.splits sum.splits)
qed

text \<open>The way to a successful \<^verbatim>\<open>ExecuteBlock\<close>: every check passes and every step succeeds.\<close>

lemma ExecuteBlock_OK_I:
  assumes "length (PrevBlockHash req) = 32" and "0 <s GetSeconds (reqTimestamp req)"
    and "syncMethodsCalled s" and "PrevBlockHash req = Header_Hash (currentSafeBlock (bc s))"
    and "sequencerHashRef env (bigInt_Uint64 (Number (currentBlock (bc s))) + 1) req = Inr seqRef"
    and "BuildPayload env (bc s)
       (UnbundleRollupDataTransactions env (Transactions req)
          (bigInt_Uint64 (Number (currentBlock (bc s))) + 1) (PrevBlockHash req))
       \<lparr>Parent = PrevBlockHash req, argTimestamp = GetSeconds (reqTimestamp req),
        Random = zeroHash, FeeRecipient = nextFeeRecipient s, IsOptimisticExecution = False,
        BeaconRoot = seqRef\<rparr> = Inr payload"
    and "ExecutableDataToBlock env payload seqRef = Inr block"
    and "insertError env (bc s) block = None"
  shows "ExecuteBlock env s req =
     (OK \<lparr>pbNumber = ucast (NumberU64 block), pbHash = Block_Hash block,
          pbParentBlockHash = Block_ParentHash block,
          pbTimestamp = Some \<lparr>Seconds = Block_Time block\<rparr>\<rparr>,
      postAdvanceConfig env (AstriaSequencerAddressPrefix env) (ucast (NumberU64 block))
        (s\<lparr>bc := (bc s)\<lparr>blocks := blocks (bc s) @ [block]\<rparr>, astriaOrdered := []\<rparr>))"
proof -
  from assms(1,2) have v: "validateStaticExecuteBlockRequest req = None"
    by (simp add: validateStaticExecuteBlockRequest_None)
  have b: "BytesToHash (PrevBlockHash req) = PrevBlockHash req"
    using assms(1) by (rule BytesToHash_32)
  have c: "PrevBlockHash req \<noteq> Header_Hash (currentSafeBlock (bc s)) \<longleftrightarrow> False"
    using assms(4) by simp
  show ?thesis
    using assms(3,5-8)
    by (simp add: ExecuteBlock_def v b c Let_def SetAstriaOrdered_def ClearAstriaOrdered_def
                  InsertBlockWithoutSetHead_def)
qed

subsection \<open>The auctioneer address after a block (claim C1)\<close>

text \<open>
  Claim C1: after a successful block build, an auctioneer address configured for the next
  height that fails the bech32m check is only logged and the stored address is left
  unchanged. The code stores it all the same: the configuration maps height 4 to the
  address \<open>bogus\<close>, the check rejects it under the prefix \<open>astria\<close>, block 3 is built
  and returned, and the stored address \<open>astria1old\<close> is replaced by \<open>bogus\<close>.
\<close>

theorem ExecuteBlock_stores_rejected_auctioneer_address:
  "ValidateBech32mAddress testEnv ''bogus'' (AstriaSequencerAddressPrefix testEnv)
     = Some ''invalid bech32m address''
   \<and> AstriaAuctioneerAddresses testEnv 4 = Some ''bogus''
   \<and> fst (ExecuteBlock testEnv testState testRequest) =
       OK \<lparr>pbNumber = 3, pbHash = replicate 32 111, pbParentBlockHash = hashN 3,
           pbTimestamp = Some \<lparr>Seconds = 30\<rparr>\<rparr>
   \<and> auctioneerAddress testState = ''astria1old''
   \<and> auctioneerAddress (snd (ExecuteBlock testEnv testState testRequest)) = ''bogus''"
  by (simp add: test_defs model_defs)

subsection \<open>Rollback when the firm block is not canonical (claim C2)\<close>

text \<open>
  Claim C2: an \<^verbatim>\<open>UpdateCommitmentState\<close> call whose soft and firm blocks both exist in the
  store, and for which the canonical hash at the firm block's height, after the chain was
  made canonical up to the soft block (\<open>c1\<close>), differs from the requested firm hash,
  returns \<open>InvalidArgument\<close> with the head set back to the head before the call; when
  setting the head back fails (or the block of the old head is missing), the process
  aborts. The call reaches that check: the request passed the static validation, the
  handshake is complete and the Celestia height does not decrease.
\<close>

theorem UpdateCommitmentState_firm_not_canonical:
  assumes valid: "validateStaticCommitmentState (reqCommitmentState req) = None"
    and cs: "reqCommitmentState req = Some cs" "Soft cs = Some soft" "Firm cs = Some firm"
    and sync: "syncMethodsCalled s"
    and mono: "\<not> baseCelestiaHeight (bc s) > BaseCelestiaHeight cs"
    and softB: "GetBlockByHash (bc s) (BytesToHash (pbHash soft)) = Some softBlock"
    and firmB: "GetBlockByHash (bc s) (BytesToHash (pbHash firm)) = Some firmBlock"
    and recanon: "(if Hash (currentBlock (bc s)) \<noteq> BytesToHash (pbHash soft)
                   then SetCanonical (setCanonicalError env) (bc s) softBlock
                   else Inr (bc s)) = Inr c1"
    and mismatch: "GetCanonicalHash c1 (NumberU64 firmBlock) \<noteq> BytesToHash (pbHash firm)"
  shows "(case GetBlockByHash c1 (Hash (currentBlock (bc s))) of
            None \<Rightarrow> fst (UpdateCommitmentState env s req) = Panic
          | Some rollbackBlock \<Rightarrow>
              (case setCanonicalError env c1 rollbackBlock of
                 Some err \<Rightarrow> fst (UpdateCommitmentState env s req) = Panic
               | None \<Rightarrow>
                   fst (UpdateCommitmentState env s req) = Err InvalidArgument \<and>
                   Hash (currentBlock (bc (snd (UpdateCommitmentState env s req)))) =
                     Hash (currentBlock (bc s))))"
proof -
  have R: "UpdateCommitmentState env s req =
      rollbackCanonical env s c1 (GetBlockByHash c1 (Hash (currentBlock (bc s))))"
    using valid sync cs mono softB firmB recanon mismatch
    by (simp add: UpdateCommitmentState_def Let_def)
  show ?thesis
    using rollbackCanonical_cases [OF R [symmetric]] GetBlockByHash_Some
    by (fastforce simp: Block_Hash_def split: option.splits)
qed

text \<open>
  The scenario of the specification: the soft block is the tip of the fork, the firm
  block the middle block of the main chain. The head returns to the main tip; with a
  chain that refuses to do so, the call panics.
\<close>

theorem UpdateCommitmentState_firm_not_canonical_witness:
  "fst (UpdateCommitmentState testEnv testState
          (testUpdate (wireBlock 2 12 13) (wireBlock 1 1 2) 6)) = Err InvalidArgument
   \<and> Hash (currentBlock (bc (snd (UpdateCommitmentState testEnv testState
          (testUpdate (wireBlock 2 12 13) (wireBlock 1 1 2) 6)))))
       = Hash (currentBlock (bc testState))
   \<and> fst (UpdateCommitmentState stoppedEnv testState
          (testUpdate (wireBlock 2 12 13) (wireBlock 1 1 2) 6)) = Panic"
proof -
  let ?req = "testUpdate (wireBlock 2 12 13) (wireBlock 1 1 2) 6"
  let ?cs = "\<lparr>Soft = Some (wireBlock 2 12 13), Firm = Some (wireBlock 1 1 2),
              BaseCelestiaHeight = 6\<rparr>"
  let ?c1 = "testChain\<lparr>currentBlock := header (mkBlock 2 12 13),
               canonical := map_of (ancestry (length (blocks testChain)) (blocks testChain)
                                      (mkBlock 2 12 13))\<rparr>"
  have a: "validateStaticCommitmentState (reqCommitmentState ?req) = None"
    by (simp add: test_defs model_defs)
  have b: "reqCommitmentState ?req = Some ?cs"
    by (simp add: test_defs)
  have c: "syncMethodsCalled testState"
    by (simp add: test_defs model_defs)
  have d: "\<not> baseCelestiaHeight (bc testState) > BaseCelestiaHeight ?cs"
    by (simp add: test_defs)
  have e: "GetBlockByHash (bc testState) (BytesToHash (pbHash (wireBlock 2 12 13)))
             = Some (mkBlock 2 12 13)"
    by (simp add: test_defs model_defs)
  have f: "GetBlockByHash (bc testState) (BytesToHash (pbHash (wireBlock 1 1 2)))
             = Some (mkBlock 1 1 2)"
    by (simp add: test_defs model_defs)
  have g: "(if Hash (currentBlock (bc testState)) \<noteq> BytesToHash (pbHash (wireBlock 2 12 13))
            then SetCanonical (setCanonicalError testEnv) (bc testState) (mkBlock 2 12 13)
            else Inr (bc testState)) = Inr ?c1"
    by (simp add: test_defs model_defs)
  have g': "(if Hash (currentBlock (bc testState)) \<noteq> BytesToHash (pbHash (wireBlock 2 12 13))
            then SetCanonical (setCanonicalError stoppedEnv) (bc testState) (mkBlock 2 12 13)
            else Inr (bc testState)) = Inr ?c1"
    by (simp add: test_defs model_defs)
  have h: "GetCanonicalHash ?c1 (NumberU64 (mkBlock 1 1 2))
             \<noteq> BytesToHash (pbHash (wireBlock 1 1 2))"
    by (simp add: test_defs model_defs)
  have i: "GetBlockByHash ?c1 (Hash (currentBlock (bc testState))) = Some (mkBlock 2 2 3)"
    by (simp add: test_defs model_defs)
  have j: "setCanonicalError testEnv ?c1 (mkBlock 2 2 3) = None"
    by (simp add: test_defs)
  have k: "setCanonicalError stoppedEnv ?c1 (mkBlock 2 2 3) = Some ''chain stopped''"
    by (simp add: test_defs model_defs)
  from UpdateCommitmentState_firm_not_canonical [OF a b _ _ c d e f g h]
       UpdateCommitmentState_firm_not_canonical [OF a b _ _ c d e f g' h]
  show ?thesis by (simp add: i j k)
qed

subsection \<open>Update, then read, the commitment state (claim C3)\<close>

text \<open>
  Claim C3: for every commitment state \<open>cs\<close> that \<^verbatim>\<open>UpdateCommitmentState\<close> accepts, an
  immediately following \<^verbatim>\<open>GetCommitmentState\<close> returns \<open>cs\<close>: the same soft block, the
  same firm block and the same \<open>base_celestia_height\<close>. The procedure is documented
  (lines 280 and 281) to replace the whole commitment state, but it stores the height
  only inside the branch that moves the final pointer (lines 350 to 353). After the
  handshake, with the final pointer on block 1 and the stored height 5, a request that
  names the current soft block (block 2) and the current firm block (block 1) and raises
  the height to 9 is accepted and echoed with height 9; the stored height stays 5, and
  the read that follows returns 5.
\<close>

theorem UpdateCommitmentState_drops_celestia_height:
  "syncMethodsCalled testState
   \<and> baseCelestiaHeight (bc testState) = 5
   \<and> Header_Hash (currentFinalBlock (bc testState)) = pbHash (wireBlock 1 1 2)
   \<and> fst (UpdateCommitmentState testEnv testState (testUpdate (wireBlock 2 2 3) (wireBlock 1 1 2) 9))
     = OK \<lparr>Soft = Some (wireBlock 2 2 3), Firm = Some (wireBlock 1 1 2), BaseCelestiaHeight = 9\<rparr>
   \<and> baseCelestiaHeight (bc (snd (UpdateCommitmentState testEnv testState
            (testUpdate (wireBlock 2 2 3) (wireBlock 1 1 2) 9)))) = 5
   \<and> fst (GetCommitmentState (snd (UpdateCommitmentState testEnv testState
            (testUpdate (wireBlock 2 2 3) (wireBlock 1 1 2) 9))))
     = OK \<lparr>Soft = Some (wireBlock 2 2 3), Firm = Some (wireBlock 1 1 2), BaseCelestiaHeight = 5\<rparr>"
  by (simp add: test_defs model_defs)

subsection \<open>The effect of a successful ExecuteBlock (claim C4)\<close>

text \<open>
  Claim C4: every \<^verbatim>\<open>ExecuteBlock\<close> call that returns OK appends exactly one new block at
  height \<open>current_head.number + 1\<close>, moves no pointer, and leaves the ordered list of the
  pool empty. Line 172 computes \<open>height\<close> as the head's number plus one, under the comment
  \<^verbatim>\<open>the height that this block will be at\<close>, and gives it to the Cancun predicate and to
  the unbundler; the payload is built on \<^verbatim>\<open>Parent: prevHeadHash\<close>, the hash of the safe
  pointer, and nothing makes the two agree. With the safe pointer on block 1 and the head
  on block 2 the call returns OK and appends a block of number 2, while \<open>height\<close> is 3. In
  the state an aborted \<^verbatim>\<open>UpdateCommitmentState\<close> leaves (the head on block 1 of the fork,
  the safe pointer on block 2) the call returns OK with a block of number 3, while
  \<open>height\<close> is 2.
\<close>

theorem ExecuteBlock_height_not_head_plus_one:
  "Number (currentBlock (bc laggingState)) + 1 = 3
   \<and> fst (ExecuteBlock testEnv laggingState laggingRequest) =
       OK \<lparr>pbNumber = 2, pbHash = replicate 32 110, pbParentBlockHash = hashN 2,
           pbTimestamp = Some \<lparr>Seconds = 30\<rparr>\<rparr>
   \<and> blocks (bc (snd (ExecuteBlock testEnv laggingState laggingRequest))) =
       blocks (bc laggingState) @
         [\<lparr>header = \<lparr>Number = 2, ParentHash = hashN 2, Time = 30, Hash = replicate 32 110\<rparr>\<rparr>]
   \<and> fst (UpdateCommitmentState stoppedEnv testState
            (testUpdate (wireBlock 1 1 12) (wireBlock 1 1 2) 6)) = Panic
   \<and> Number (currentBlock (bc abortedState)) + 1 = 2
   \<and> currentSafeBlock (bc abortedState) = Some (header (mkBlock 2 2 3))
   \<and> fst (ExecuteBlock stoppedEnv abortedState testRequest) =
       OK \<lparr>pbNumber = 3, pbHash = replicate 32 111, pbParentBlockHash = hashN 3,
           pbTimestamp = Some \<lparr>Seconds = 30\<rparr>\<rparr>"
  by (simp add: test_defs model_defs)

subsection \<open>Determinism of ExecuteBlock (claim C5)\<close>




subsection \<open>When ExecuteBlock fails with InvalidArgument (claim C6)\<close>




subsection \<open>Blocks are built on the soft head only (claim C7)\<close>

text \<open>
  Claim C7: every \<^verbatim>\<open>ExecuteBlock\<close> call made after the handshake whose \<open>prev_block_hash\<close>
  differs from the hash of the safe pointer fails with \<open>FailedPrecondition\<close>. The static
  validation comes first: after the handshake, a request on block 1 (the soft head is
  block 2) that carries no timestamp fails with \<open>InvalidArgument\<close>.
\<close>

theorem ExecuteBlock_stale_parent_counterexample:
  "syncMethodsCalled testState
   \<and> currentSafeBlock (bc testState) = Some (header (mkBlock 2 2 3))
   \<and> PrevBlockHash (testRequest\<lparr>PrevBlockHash := hashN 2, reqTimestamp := None\<rparr>)
       \<noteq> Hash (header (mkBlock 2 2 3))
   \<and> fst (ExecuteBlock testEnv testState
            (testRequest\<lparr>PrevBlockHash := hashN 2, reqTimestamp := None\<rparr>))
       = Err InvalidArgument"
  by (simp add: test_defs model_defs)

text \<open>
  Claim C7, amended: every \<^verbatim>\<open>ExecuteBlock\<close> call made after the handshake whose
  \<open>prev_block_hash\<close> differs from the hash of the safe pointer fails and leaves the
  service state as it was, so no block is built or inserted: with \<open>FailedPrecondition\<close>
  when the request passes the static validation (32 bytes, positive seconds), with
  \<open>InvalidArgument\<close> when it does not.
\<close>

theorem ExecuteBlock_stale_parent:
  assumes "syncMethodsCalled s" and "currentSafeBlock (bc s) = Some safe"
    and "PrevBlockHash req \<noteq> Hash safe"
  shows "ExecuteBlock env s req =
           (Err (if length (PrevBlockHash req) = 32 \<and> 0 <s GetSeconds (reqTimestamp req)
                 then FailedPrecondition else InvalidArgument), s)"
  using assms
  by (auto simp: ExecuteBlock_def validateStaticExecuteBlockRequest_def BytesToHash_32
                 Header_Hash_def)

text \<open>The scenario of the specification: a request on block 1 while the soft head is block 2.\<close>

theorem ExecuteBlock_stale_parent_witness:
  "ExecuteBlock testEnv testState (testRequest\<lparr>PrevBlockHash := hashN 2\<rparr>)
     = (Err FailedPrecondition, testState)"
proof -
  have a: "syncMethodsCalled testState"
    by (simp add: test_defs model_defs)
  have b: "currentSafeBlock (bc testState) = Some (header (mkBlock 2 2 3))"
    by (simp add: test_defs)
  have c: "PrevBlockHash (testRequest\<lparr>PrevBlockHash := hashN 2\<rparr>) \<noteq> Hash (header (mkBlock 2 2 3))"
    by (simp add: test_defs)
  from ExecuteBlock_stale_parent [OF a b c, of testEnv] show ?thesis
    by (simp add: test_defs GetSeconds_def word_sless_alt)
qed

subsection \<open>What no call changes\<close>

lemma ExecuteBlock_before_handshake:
  "\<not> syncMethodsCalled s \<Longrightarrow>
     ExecuteBlock env s req =
       (Err (if length (PrevBlockHash req) = 32 \<and> 0 <s GetSeconds (reqTimestamp req)
             then PermissionDenied else InvalidArgument), s)"
  by (auto simp: ExecuteBlock_def validateStaticExecuteBlockRequest_def)

lemma UpdateCommitmentState_before_handshake:
  assumes "\<not> syncMethodsCalled s"
  shows "
     UpdateCommitmentState env s req =
       (Err (if validateStaticCommitmentState (reqCommitmentState req) = None
             then PermissionDenied else InvalidArgument), s)"
proof (cases "validateStaticCommitmentState (reqCommitmentState req)")
  case None
  then obtain cs soft firm where "reqCommitmentState req = Some cs" "Soft cs = Some soft"
      "Firm cs = Some firm"
    by (auto simp: validateStaticCommitmentState_None)
  with None assms show ?thesis
    by (simp add: UpdateCommitmentState_def)
next
  case (Some err)
  then show ?thesis
    by (simp add: UpdateCommitmentState_def)
qed

lemma ExecuteBlock_frame:
  "genesisInfoCalled (snd (ExecuteBlock env s req)) = genesisInfoCalled s \<and>
   getCommitmentStateCalled (snd (ExecuteBlock env s req)) = getCommitmentStateCalled s \<and>
   baseCelestiaHeight (bc (snd (ExecuteBlock env s req))) = baseCelestiaHeight (bc s)"
  by (simp add: ExecuteBlock_def Let_def SetAstriaOrdered_def ClearAstriaOrdered_def
                postAdvanceConfig_frame InsertBlockWithoutSetHead_def
           split: option.splits sum.splits)

lemma rollbackCanonical_frame:
  "genesisInfoCalled (snd (rollbackCanonical env s c rbo)) = genesisInfoCalled s \<and>
   getCommitmentStateCalled (snd (rollbackCanonical env s c rbo)) = getCommitmentStateCalled s \<and>
   baseCelestiaHeight (bc (snd (rollbackCanonical env s c rbo))) = baseCelestiaHeight c"
  by (simp add: rollbackCanonical_def SetCanonical_def split: option.splits sum.splits)

lemma commitPointers_frame:
  "genesisInfoCalled (snd (commitPointers s c cs sh fh sb fb)) = genesisInfoCalled s \<and>
   getCommitmentStateCalled (snd (commitPointers s c cs sh fh sb fb)) = getCommitmentStateCalled s \<and>
   (baseCelestiaHeight c \<le> BaseCelestiaHeight cs \<longrightarrow>
      baseCelestiaHeight c \<le> baseCelestiaHeight (bc (snd (commitPointers s c cs sh fh sb fb))))"
  by (simp add: commitPointers_def Let_def SetSafe_def SetCelestiaFinalized_def
           split: option.splits)

lemma commitPointers_base_mono:
  "baseCelestiaHeight c = b \<Longrightarrow> b \<le> BaseCelestiaHeight cs \<Longrightarrow>
     b \<le> baseCelestiaHeight (bc (snd (commitPointers s c cs sh fh sb fb)))"
  using commitPointers_frame by blast

lemma UpdateCommitmentState_frame:
  "genesisInfoCalled (snd (UpdateCommitmentState env s req)) = genesisInfoCalled s \<and>
   getCommitmentStateCalled (snd (UpdateCommitmentState env s req)) = getCommitmentStateCalled s \<and>
   baseCelestiaHeight (bc s) \<le> baseCelestiaHeight (bc (snd (UpdateCommitmentState env s req)))"
proof -
  have c1: "\<And>b c1. SetCanonical (setCanonicalError env) (bc s) b = Inr c1 \<Longrightarrow>
              baseCelestiaHeight c1 = baseCelestiaHeight (bc s)"
    using SetCanonical_Inr by blast
  show ?thesis
    by (auto simp: UpdateCommitmentState_def Let_def rollbackCanonical_frame commitPointers_frame c1
                   not_less
             intro: commitPointers_base_mono dest: c1
             split: option.splits sum.splits if_splits)
qed


lemma GetCommitmentState_frame:
  "genesisInfoCalled (snd (GetCommitmentState s)) = genesisInfoCalled s \<and>
   bc (snd (GetCommitmentState s)) = bc s \<and>
   (getCommitmentStateCalled (snd (GetCommitmentState s)) \<longrightarrow>
      getCommitmentStateCalled s \<or> statusOf (fst (GetCommitmentState s)) = Accepted)"
  by (simp add: GetCommitmentState_def statusOf_def Let_def split: sum.splits)

lemma GetGenesisInfo_frame:
  "getCommitmentStateCalled (snd (GetGenesisInfo env s)) = getCommitmentStateCalled s \<and>
   bc (snd (GetGenesisInfo env s)) = bc s \<and>
   statusOf (fst (GetGenesisInfo env s)) = Accepted"
  by (simp add: GetGenesisInfo_def statusOf_def Let_def)

lemma GetBlock_frame: "snd (GetBlock s req) = s"
  by (simp add: GetBlock_def split: option.splits sum.splits)

lemma BatchGetBlocks_frame: "snd (BatchGetBlocks s ids) = s"
  by (simp add: BatchGetBlocks_def split: sum.splits)

lemma serve_genesis_flag:
  "serve env s call = (st, s') \<Longrightarrow> genesisInfoCalled s' \<Longrightarrow>
     genesisInfoCalled s \<or> (call = Call_GetGenesisInfo \<and> st = Accepted)"
  using ExecuteBlock_frame [of env s] UpdateCommitmentState_frame [of env s]
        GetCommitmentState_frame [of s] GetGenesisInfo_frame [of env s]
        GetBlock_frame [of s] BatchGetBlocks_frame [of s]
  by (auto simp: serve_def split_def Let_def split: Call.splits)

lemma serve_commitment_flag:
  "serve env s call = (st, s') \<Longrightarrow> getCommitmentStateCalled s' \<Longrightarrow>
     getCommitmentStateCalled s \<or> (call = Call_GetCommitmentState \<and> st = Accepted)"
  using ExecuteBlock_frame [of env s] UpdateCommitmentState_frame [of env s]
        GetCommitmentState_frame [of s] GetGenesisInfo_frame [of env s]
        GetBlock_frame [of s] BatchGetBlocks_frame [of s]
  by (auto simp: serve_def split_def Let_def split: Call.splits)

lemma serve_base_mono:
  "serve env s call = (st, s') \<Longrightarrow> baseCelestiaHeight (bc s) \<le> baseCelestiaHeight (bc s')"
  using ExecuteBlock_frame [of env s] UpdateCommitmentState_frame [of env s]
        GetCommitmentState_frame [of s] GetGenesisInfo_frame [of env s]
        GetBlock_frame [of s] BatchGetBlocks_frame [of s]
  by (auto simp: serve_def split_def Let_def split: Call.splits)

lemma serve_gated_accepted:
  assumes "serve env s call = (Accepted, s')" and "gated call"
  shows "syncMethodsCalled s"
proof (rule ccontr)
  assume n: "\<not> syncMethodsCalled s"
  from assms ExecuteBlock_before_handshake [OF n, of env] UpdateCommitmentState_before_handshake [OF n, of env]
  show False
    by (auto simp: serve_def gated_def statusOf_def split_def split: Call.splits if_splits)
qed

lemma run_gate:
  "fst (run env s calls) = pre @ (call, Accepted) # post \<Longrightarrow> gated call \<Longrightarrow>
     (genesisInfoCalled s \<or> (Call_GetGenesisInfo, Accepted) \<in> set pre) \<and>
     (getCommitmentStateCalled s \<or> (Call_GetCommitmentState, Accepted) \<in> set pre)"
proof (induction calls arbitrary: s pre)
  case Nil
  then show ?case by simp
next
  case (Cons c calls)
  obtain st s1 where sv: "serve env s c = (st, s1)" by (cases "serve env s c")
  show ?case
  proof (cases "st = Aborted")
    case True
    with Cons.prems sv show ?thesis
      by (cases pre) auto
  next
    case False
    then have tr: "fst (run env s (c # calls)) = (c, st) # fst (run env s1 calls)"
      using sv by (simp add: split_def Let_def)
    show ?thesis
    proof (cases pre)
      case Nil
      with Cons.prems tr have "c = call" "st = Accepted" by auto
      with sv Cons.prems(2) have "syncMethodsCalled s"
        using serve_gated_accepted by blast
      then show ?thesis by (simp add: syncMethodsCalled_def)
    next
      case (Cons p pre')
      with Cons.prems tr have p: "p = (c, st)"
        and rest: "fst (run env s1 calls) = pre' @ (call, Accepted) # post" by auto
      from Cons.IH [OF rest Cons.prems(2)]
      have ih: "(genesisInfoCalled s1 \<or> (Call_GetGenesisInfo, Accepted) \<in> set pre') \<and>
            (getCommitmentStateCalled s1 \<or> (Call_GetCommitmentState, Accepted) \<in> set pre')" .
      show ?thesis
        using ih serve_genesis_flag [OF sv] serve_commitment_flag [OF sv] p Cons
        by auto
    qed
  qed
qed

lemma run_base_mono:
  "baseCelestiaHeight (bc s) \<le> baseCelestiaHeight (bc (snd (run env s calls)))"
proof (induction calls arbitrary: s)
  case Nil
  then show ?case by simp
next
  case (Cons c calls)
  obtain st s1 where sv: "serve env s c = (st, s1)" by (cases "serve env s c")
  from serve_base_mono [OF sv] Cons.IH [of s1] sv
  show ?case by (auto simp: split_def Let_def)
qed


subsection \<open>The handshake gate (claim C8)\<close>

text \<open>
  Claim C8: no \<^verbatim>\<open>ExecuteBlock\<close> or \<^verbatim>\<open>UpdateCommitmentState\<close> call is accepted before both
  \<^verbatim>\<open>GetGenesisInfo\<close> and \<^verbatim>\<open>GetCommitmentState\<close> have completed; while either flag is false,
  both procedures return \<open>PermissionDenied\<close> without modifying any state. The static
  validation comes before the gate: before the handshake, an \<^verbatim>\<open>ExecuteBlock\<close> request
  without a timestamp and an \<^verbatim>\<open>UpdateCommitmentState\<close> request without a soft block fail
  with \<open>InvalidArgument\<close>.
\<close>

theorem handshake_gate_counterexample:
  "\<not> syncMethodsCalled freshState
   \<and> fst (ExecuteBlock testEnv freshState (testRequest\<lparr>reqTimestamp := None\<rparr>)) = Err InvalidArgument
   \<and> fst (UpdateCommitmentState testEnv freshState
            \<lparr>reqCommitmentState =
               Some \<lparr>Soft = None, Firm = Some (wireBlock 1 1 2), BaseCelestiaHeight = 6\<rparr>\<rparr>)
       = Err InvalidArgument"
  by (simp add: test_defs model_defs)

text \<open>
  Claim C8, amended: while either handshake flag is false, both procedures fail without
  modifying any state, with \<open>PermissionDenied\<close> when the request passes the static
  validation and with \<open>InvalidArgument\<close> when it does not. In every sequence of calls
  served from a state with both flags false, an accepted \<^verbatim>\<open>ExecuteBlock\<close> or
  \<^verbatim>\<open>UpdateCommitmentState\<close> comes after an accepted \<^verbatim>\<open>GetGenesisInfo\<close> and an accepted
  \<^verbatim>\<open>GetCommitmentState\<close>.
\<close>

theorem handshake_gate:
  "(\<not> syncMethodsCalled s \<longrightarrow>
      ExecuteBlock env s req =
        (Err (if length (PrevBlockHash req) = 32 \<and> 0 <s GetSeconds (reqTimestamp req)
              then PermissionDenied else InvalidArgument), s) \<and>
      UpdateCommitmentState env s ureq =
        (Err (if validateStaticCommitmentState (reqCommitmentState ureq) = None
              then PermissionDenied else InvalidArgument), s))
   \<and> (\<not> genesisInfoCalled s0 \<longrightarrow> \<not> getCommitmentStateCalled s0 \<longrightarrow>
       fst (run env s0 calls) = pre @ (call, Accepted) # post \<longrightarrow> gated call \<longrightarrow>
         (Call_GetGenesisInfo, Accepted) \<in> set pre \<and>
         (Call_GetCommitmentState, Accepted) \<in> set pre)"
  using ExecuteBlock_before_handshake [of s env req]
        UpdateCommitmentState_before_handshake [of s env ureq]
        run_gate [of env s0 calls pre call post]
  by blast

text \<open>
  Before the handshake both calls are denied; a run of a denied \<^verbatim>\<open>ExecuteBlock\<close>, the
  two getters and the same \<^verbatim>\<open>ExecuteBlock\<close> again ends with the block accepted.
\<close>

theorem handshake_gate_witness:
  "ExecuteBlock testEnv freshState testRequest = (Err PermissionDenied, freshState)
   \<and> UpdateCommitmentState testEnv freshState (testUpdate (wireBlock 2 2 3) (wireBlock 1 1 2) 6)
       = (Err PermissionDenied, freshState)
   \<and> fst (run testEnv freshState
            [Call_ExecuteBlock testRequest, Call_GetGenesisInfo, Call_GetCommitmentState,
             Call_ExecuteBlock testRequest])
       = [(Call_ExecuteBlock testRequest, Failed PermissionDenied),
          (Call_GetGenesisInfo, Accepted), (Call_GetCommitmentState, Accepted)]
         @ (Call_ExecuteBlock testRequest, Accepted) # []
   \<and> (Call_GetGenesisInfo, Accepted) \<in> set
        [(Call_ExecuteBlock testRequest, Failed PermissionDenied),
          (Call_GetGenesisInfo, Accepted), (Call_GetCommitmentState, Accepted)]"
proof -
  have n: "\<not> syncMethodsCalled freshState" "\<not> genesisInfoCalled freshState"
      "\<not> getCommitmentStateCalled freshState"
    by (simp_all add: test_defs model_defs)
  have v: "length (PrevBlockHash testRequest) = 32 \<and> 0 <s GetSeconds (reqTimestamp testRequest)"
    by (simp add: test_defs model_defs)
  have w: "validateStaticCommitmentState
             (reqCommitmentState (testUpdate (wireBlock 2 2 3) (wireBlock 1 1 2) 6)) = None"
    by (simp add: test_defs model_defs)
  have r: "fst (run testEnv freshState
            [Call_ExecuteBlock testRequest, Call_GetGenesisInfo, Call_GetCommitmentState,
             Call_ExecuteBlock testRequest])
       = [(Call_ExecuteBlock testRequest, Failed PermissionDenied),
          (Call_GetGenesisInfo, Accepted), (Call_GetCommitmentState, Accepted)]
         @ (Call_ExecuteBlock testRequest, Accepted) # []"
    by (simp add: serve_def statusOf_def GetGenesisInfo_def test_defs model_defs)
  have g: "gated (Call_ExecuteBlock testRequest)"
    by (simp add: gated_def)
  from handshake_gate [where s = freshState and env = testEnv and req = testRequest
              and ureq = "testUpdate (wireBlock 2 2 3) (wireBlock 1 1 2) 6"
              and ?s0.0 = freshState and call = "Call_ExecuteBlock testRequest" and post = "[]"]
       n v w r g
  show ?thesis by simp
qed

subsection \<open>The Celestia height never decreases (claim C9)\<close>

text \<open>
  Claim C9: every \<^verbatim>\<open>UpdateCommitmentState\<close> request whose \<open>base_celestia_height\<close> is below
  the stored one fails with \<open>InvalidArgument\<close> before any state change, and the stored
  height is monotone across successful calls. The handshake gate comes before the
  comparison: before the handshake, a well-formed request with height 3 against the stored
  height 5 fails with \<open>PermissionDenied\<close>.
\<close>

theorem base_celestia_height_counterexample:
  "reqCommitmentState (testUpdate (wireBlock 2 2 3) (wireBlock 1 1 2) 3)
     = Some \<lparr>Soft = Some (wireBlock 2 2 3), Firm = Some (wireBlock 1 1 2), BaseCelestiaHeight = 3\<rparr>
   \<and> (3 :: 64 word) < baseCelestiaHeight (bc freshState)
   \<and> fst (UpdateCommitmentState testEnv freshState (testUpdate (wireBlock 2 2 3) (wireBlock 1 1 2) 3))
       = Err PermissionDenied"
  by (simp add: test_defs model_defs)

text \<open>
  Claim C9, amended: every \<^verbatim>\<open>UpdateCommitmentState\<close> request whose
  \<open>base_celestia_height\<close> is below the stored one fails and leaves the service state as
  it was: with \<open>InvalidArgument\<close> once the handshake is complete or when the request
  fails the static validation, with \<open>PermissionDenied\<close> otherwise. Every accepted
  \<^verbatim>\<open>UpdateCommitmentState\<close> leaves a stored height at least the one before, and so does
  every sequence of calls.
\<close>

theorem base_celestia_height_monotone:
  "(reqCommitmentState req = Some cs \<longrightarrow> BaseCelestiaHeight cs < baseCelestiaHeight (bc s) \<longrightarrow>
      UpdateCommitmentState env s req =
        (Err (if syncMethodsCalled s \<or> validateStaticCommitmentState (Some cs) \<noteq> None
              then InvalidArgument else PermissionDenied), s))
   \<and> (\<forall>r s'. UpdateCommitmentState env s req = (OK r, s') \<longrightarrow>
         baseCelestiaHeight (bc s) \<le> baseCelestiaHeight (bc s'))
   \<and> baseCelestiaHeight (bc s) \<le> baseCelestiaHeight (bc (snd (run env s calls)))"
proof (intro conjI impI allI)
  assume a: "reqCommitmentState req = Some cs" "BaseCelestiaHeight cs < baseCelestiaHeight (bc s)"
  show "UpdateCommitmentState env s req =
        (Err (if syncMethodsCalled s \<or> validateStaticCommitmentState (Some cs) \<noteq> None
              then InvalidArgument else PermissionDenied), s)"
  proof (cases "validateStaticCommitmentState (Some cs)")
    case None
    then obtain soft firm where "Soft cs = Some soft" "Firm cs = Some firm"
      by (auto simp: validateStaticCommitmentState_None)
    with None a show ?thesis
      by (simp add: UpdateCommitmentState_def)
  next
    case (Some err)
    with a show ?thesis
      by (simp add: UpdateCommitmentState_def)
  qed
next
  fix r s'
  assume "UpdateCommitmentState env s req = (OK r, s')"
  with UpdateCommitmentState_frame [of env s req]
  show "baseCelestiaHeight (bc s) \<le> baseCelestiaHeight (bc s')" by simp
next
  show "baseCelestiaHeight (bc s) \<le> baseCelestiaHeight (bc (snd (run env s calls)))"
    by (rule run_base_mono)
qed

text \<open>
  After the handshake the request with height 3 fails with \<open>InvalidArgument\<close>; the
  accepted move of the firm head to the fork raises the stored height from 5 to 9.
\<close>

theorem base_celestia_height_monotone_witness:
  "UpdateCommitmentState testEnv testState (testUpdate (wireBlock 2 2 3) (wireBlock 1 1 2) 3)
     = (Err InvalidArgument, testState)
   \<and> baseCelestiaHeight (bc testState) = 5
   \<and> baseCelestiaHeight (bc (snd (UpdateCommitmentState testEnv testState
        (testUpdate (wireBlock 2 12 13) (wireBlock 1 1 12) 9)))) = 9"
proof -
  have a: "reqCommitmentState (testUpdate (wireBlock 2 2 3) (wireBlock 1 1 2) 3)
     = Some \<lparr>Soft = Some (wireBlock 2 2 3), Firm = Some (wireBlock 1 1 2), BaseCelestiaHeight = 3\<rparr>"
    by (simp add: test_defs)
  have b: "(3 :: 64 word) < baseCelestiaHeight (bc testState)" "syncMethodsCalled testState"
    by (simp_all add: test_defs model_defs)
  have c: "baseCelestiaHeight (bc testState) = 5
   \<and> baseCelestiaHeight (bc (snd (UpdateCommitmentState testEnv testState
        (testUpdate (wireBlock 2 12 13) (wireBlock 1 1 12) 9)))) = 9"
    by (simp add: test_defs model_defs)
  from base_celestia_height_monotone [where req = "testUpdate (wireBlock 2 2 3) (wireBlock 1 1 2) 3" and s = testState
              and env = testEnv] a b c
  show ?thesis by simp
qed


subsection \<open>The number of a wire block (claim C10)\<close>

lemma uint32_of_Int64:
  "0 \<le> n \<Longrightarrow> uint (ucast (bigInt_Int64 n) :: 32 word) = n mod 2 ^ 32"
proof -
  assume n: "0 \<le> n"
  have "uint (ucast (word_of_int n :: 64 word) :: 32 word) = (n mod 2 ^ 64) mod 2 ^ 32"
    by (simp add: unsigned_ucast_eq uint_word_of_int take_bit_eq_mod)
  also have "\<dots> = n mod 2 ^ 32"
    by (simp add: mod_mod_cancel)
  finally show ?thesis using n by (simp add: bigInt_Int64_def Let_def)
qed

lemma uint32_of_Uint64:
  "0 \<le> n \<Longrightarrow> uint (ucast (bigInt_Uint64 n) :: 32 word) = n mod 2 ^ 32"
  using uint32_of_Int64 [of n] by (simp add: bigInt_Int64_def bigInt_Uint64_def Let_def)

lemma GetHeaderByHash_stored:
  "GetHeaderByHash c h = Some hdr \<Longrightarrow> hdr \<in> header ` set (blocks c)"
  using GetBlockByHash_Some by (fastforce simp: GetHeaderByHash_def)

lemma GetHeaderByNumber_stored:
  "GetHeaderByNumber c n = Some hdr \<Longrightarrow> hdr \<in> header ` set (blocks c)"
  using GetHeaderByHash_stored by (auto simp: GetHeaderByNumber_def split: option.splits)

lemma getBlockFromIdentifier_Inr:
  "getBlockFromIdentifier c identifier = Inr b \<Longrightarrow>
     \<exists>h. h \<in> header ` set (blocks c) \<and> ethHeaderToExecutionBlock (Some h) = Inr b"
proof -
  assume a: "getBlockFromIdentifier c identifier = Inr b"
  then obtain h where h: "GetHeaderByNumber c (ucast (case identifier of
        BlockIdentifier_BlockNumber n \<Rightarrow> n | _ \<Rightarrow> 0)) = Some h
      \<or> GetHeaderByHash c (BytesToHash (case identifier of
        BlockIdentifier_BlockHash x \<Rightarrow> x | _ \<Rightarrow> [])) = Some h"
    and e: "ethHeaderToExecutionBlock (Some h) = Inr b"
    by (auto simp: getBlockFromIdentifier_def
             split: BlockIdentifier.splits option.splits sum.splits)
  from h have "h \<in> header ` set (blocks c)"
    using GetHeaderByHash_stored GetHeaderByNumber_stored by blast
  with e show ?thesis by blast
qed

lemma batchGetBlocksLoop_Inr:
  "batchGetBlocksLoop c ids acc = Inr bs \<Longrightarrow> b \<in> set bs \<Longrightarrow>
     b \<in> set acc \<or> (\<exists>h. h \<in> header ` set (blocks c) \<and> ethHeaderToExecutionBlock (Some h) = Inr b)"
proof (induction ids arbitrary: acc)
  case Nil
  then show ?case by simp
next
  case (Cons i ids)
  then show ?case
    using getBlockFromIdentifier_Inr
    by (fastforce split: sum.splits)
qed

lemma ethHeaderToExecutionBlock_number:
  "ethHeaderToExecutionBlock (Some h) = Inr b \<Longrightarrow>
     pbHash b = Hash h \<and> (0 \<le> Number h \<longrightarrow> uint (pbNumber b) = Number h mod 2 ^ 32)"
  by (auto simp: ethHeaderToExecutionBlock_def uint32_of_Int64)

text \<open>A header that is there converts to a wire block, whatever its number.\<close>

lemma ethHeaderToExecutionBlock_Some:
  "\<exists>b. ethHeaderToExecutionBlock (Some h) = Inr b \<and> pbHash b = Hash h \<and>
       (0 \<le> Number h \<longrightarrow> uint (pbNumber b) = Number h mod 2 ^ 32)"
  by (simp add: ethHeaderToExecutionBlock_def uint32_of_Int64)

lemma getBlockFromIdentifier_found:
  assumes "(case i of
              BlockIdentifier_BlockNumber n \<Rightarrow> GetHeaderByNumber c (ucast n)
            | BlockIdentifier_BlockHash x \<Rightarrow> GetHeaderByHash c (BytesToHash x)
            | BlockIdentifier_Unset \<Rightarrow> None) = Some h"
  shows "\<exists>b. getBlockFromIdentifier c i = Inr b \<and> pbHash b = Hash h \<and>
       (0 \<le> Number h \<longrightarrow> uint (pbNumber b) = Number h mod 2 ^ 32)"
  using assms
  by (cases i) (simp_all add: getBlockFromIdentifier_def ethHeaderToExecutionBlock_def
                              uint32_of_Int64)

lemma batchGetBlocksLoop_found:
  assumes "list_all2 (\<lambda>i h. (case i of
                          BlockIdentifier_BlockNumber n \<Rightarrow> GetHeaderByNumber c (ucast n)
                        | BlockIdentifier_BlockHash x \<Rightarrow> GetHeaderByHash c (BytesToHash x)
                        | BlockIdentifier_Unset \<Rightarrow> None) = Some h) ids hs"
  shows "\<exists>bs. batchGetBlocksLoop c ids acc = Inr (acc @ bs) \<and>
            list_all2 (\<lambda>h b. pbHash b = Hash h \<and>
                 (0 \<le> Number h \<longrightarrow> uint (pbNumber b) = Number h mod 2 ^ 32)) hs bs"
  using assms
proof (induction ids hs arbitrary: acc rule: list_all2_induct)
  case Nil
  then show ?case by simp
next
  case (Cons i ids h hs)
  from getBlockFromIdentifier_found [OF Cons.hyps(1)]
  obtain b where b: "getBlockFromIdentifier c i = Inr b" "pbHash b = Hash h"
      "0 \<le> Number h \<longrightarrow> uint (pbNumber b) = Number h mod 2 ^ 32"
    by blast
  from Cons.IH [of "acc @ [b]"]
  obtain bs where bs: "batchGetBlocksLoop c ids (acc @ [b]) = Inr ((acc @ [b]) @ bs)"
      "list_all2 (\<lambda>h b. pbHash b = Hash h \<and>
                 (0 \<le> Number h \<longrightarrow> uint (pbNumber b) = Number h mod 2 ^ 32)) hs bs"
    by blast
  have "batchGetBlocksLoop c (i # ids) acc = Inr (acc @ (b # bs))"
    using b(1) bs(1) by simp
  moreover have "list_all2 (\<lambda>h b. pbHash b = Hash h \<and>
                 (0 \<le> Number h \<longrightarrow> uint (pbNumber b) = Number h mod 2 ^ 32)) (h # hs) (b # bs)"
    using b(2,3) bs(2) by simp
  ultimately show ?case by blast
qed

text \<open>
  Claim C10: every wire block returned by \<^verbatim>\<open>GetBlock\<close>, \<^verbatim>\<open>BatchGetBlocks\<close>,
  \<^verbatim>\<open>GetCommitmentState\<close> and \<^verbatim>\<open>ExecuteBlock\<close> carries the number of its header or block
  reduced modulo \<open>2 ^ 32\<close>, for a height \<open>n\<close> of 64 bits, and no error is raised for a
  height at or above \<open>2 ^ 32\<close>. First, what is returned: a block returned by the two
  queries is the wire form of the header of a stored block, the blocks of the commitment
  state are those of the safe and final pointers, and the block of \<^verbatim>\<open>ExecuteBlock\<close> is the
  appended one, each with its number modulo \<open>2 ^ 32\<close>. Then, that it is returned, whatever
  the height: \<^verbatim>\<open>GetBlock\<close> returns the header found for a hash or a number;
  \<^verbatim>\<open>BatchGetBlocks\<close> returns, in order, the headers found for a non-empty list of
  identifiers; \<^verbatim>\<open>GetCommitmentState\<close> returns the two pointers when both are set; and
  \<^verbatim>\<open>ExecuteBlock\<close> returns the block when the checks pass and the builder, the conversion
  and the insertion succeed.
\<close>

theorem wire_block_number_mod:
  "(\<forall>b s'. GetBlock s req = (OK b, s') \<longrightarrow>
      (\<exists>h. h \<in> header ` set (blocks (bc s)) \<and> pbHash b = Hash h \<and>
           (0 \<le> Number h \<longrightarrow> Number h < 2 ^ 64 \<longrightarrow> uint (pbNumber b) = Number h mod 2 ^ 32)))
   \<and> (\<forall>bs s'. BatchGetBlocks s ids = (OK bs, s') \<longrightarrow>
      (\<forall>b \<in> set bs. \<exists>h. h \<in> header ` set (blocks (bc s)) \<and> pbHash b = Hash h \<and>
           (0 \<le> Number h \<longrightarrow> Number h < 2 ^ 64 \<longrightarrow> uint (pbNumber b) = Number h mod 2 ^ 32)))
   \<and> (\<forall>cs s'. GetCommitmentState s = (OK cs, s') \<longrightarrow>
      (\<exists>hs hf soft firm.
          currentSafeBlock (bc s) = Some hs \<and> currentFinalBlock (bc s) = Some hf \<and>
          Soft cs = Some soft \<and> Firm cs = Some firm \<and>
          (0 \<le> Number hs \<longrightarrow> Number hs < 2 ^ 64 \<longrightarrow> uint (pbNumber soft) = Number hs mod 2 ^ 32) \<and>
          (0 \<le> Number hf \<longrightarrow> Number hf < 2 ^ 64 \<longrightarrow> uint (pbNumber firm) = Number hf mod 2 ^ 32)))
   \<and> (\<forall>b s'. ExecuteBlock env s ereq = (OK b, s') \<longrightarrow>
      (\<exists>block. blocks (bc s') = blocks (bc s) @ [block] \<and> pbHash b = Block_Hash block \<and>
           (0 \<le> Number (header block) \<longrightarrow> Number (header block) < 2 ^ 64 \<longrightarrow>
              uint (pbNumber b) = Number (header block) mod 2 ^ 32)))
   \<and> (\<forall>h. GetHeaderByHash (bc s) (BytesToHash hash) = Some h \<longrightarrow>
      (\<exists>b. GetBlock s \<lparr>Identifier = Some (BlockIdentifier_BlockHash hash)\<rparr> = (OK b, s) \<and>
           pbHash b = Hash h \<and>
           (0 \<le> Number h \<longrightarrow> Number h < 2 ^ 64 \<longrightarrow> uint (pbNumber b) = Number h mod 2 ^ 32)))
   \<and> (\<forall>h. GetHeaderByNumber (bc s) (ucast n) = Some h \<longrightarrow>
      (\<exists>b. GetBlock s \<lparr>Identifier = Some (BlockIdentifier_BlockNumber n)\<rparr> = (OK b, s) \<and>
           pbHash b = Hash h \<and>
           (0 \<le> Number h \<longrightarrow> Number h < 2 ^ 64 \<longrightarrow> uint (pbNumber b) = Number h mod 2 ^ 32)))
   \<and> (\<forall>hs. ids \<noteq> [] \<longrightarrow>
      list_all2 (\<lambda>i h. (case i of
                          BlockIdentifier_BlockNumber n \<Rightarrow> GetHeaderByNumber (bc s) (ucast n)
                        | BlockIdentifier_BlockHash x \<Rightarrow> GetHeaderByHash (bc s) (BytesToHash x)
                        | BlockIdentifier_Unset \<Rightarrow> None) = Some h) ids hs \<longrightarrow>
      (\<exists>bs. BatchGetBlocks s ids = (OK bs, s) \<and>
            list_all2 (\<lambda>h b. pbHash b = Hash h \<and>
                 (0 \<le> Number h \<longrightarrow> Number h < 2 ^ 64 \<longrightarrow> uint (pbNumber b) = Number h mod 2 ^ 32))
              hs bs))
   \<and> (\<forall>hs hf. currentSafeBlock (bc s) = Some hs \<longrightarrow> currentFinalBlock (bc s) = Some hf \<longrightarrow>
      (\<exists>soft firm. fst (GetCommitmentState s) =
            OK \<lparr>Soft = Some soft, Firm = Some firm, BaseCelestiaHeight = baseCelestiaHeight (bc s)\<rparr> \<and>
          pbHash soft = Hash hs \<and> pbHash firm = Hash hf \<and>
          (0 \<le> Number hs \<longrightarrow> Number hs < 2 ^ 64 \<longrightarrow> uint (pbNumber soft) = Number hs mod 2 ^ 32) \<and>
          (0 \<le> Number hf \<longrightarrow> Number hf < 2 ^ 64 \<longrightarrow> uint (pbNumber firm) = Number hf mod 2 ^ 32)))
   \<and> (\<forall>seqRef payload block.
      length (PrevBlockHash ereq) = 32 \<longrightarrow> 0 <s GetSeconds (reqTimestamp ereq) \<longrightarrow>
      syncMethodsCalled s \<longrightarrow> PrevBlockHash ereq = Header_Hash (currentSafeBlock (bc s)) \<longrightarrow>
      sequencerHashRef env (bigInt_Uint64 (Number (currentBlock (bc s))) + 1) ereq = Inr seqRef \<longrightarrow>
      BuildPayload env (bc s)
        (UnbundleRollupDataTransactions env (Transactions ereq)
           (bigInt_Uint64 (Number (currentBlock (bc s))) + 1) (PrevBlockHash ereq))
        \<lparr>Parent = PrevBlockHash ereq, argTimestamp = GetSeconds (reqTimestamp ereq),
         Random = zeroHash, FeeRecipient = nextFeeRecipient s, IsOptimisticExecution = False,
         BeaconRoot = seqRef\<rparr> = Inr payload \<longrightarrow>
      ExecutableDataToBlock env payload seqRef = Inr block \<longrightarrow>
      insertError env (bc s) block = None \<longrightarrow>
      (\<exists>b s'. ExecuteBlock env s ereq = (OK b, s') \<and> pbHash b = Block_Hash block \<and>
           (0 \<le> Number (header block) \<longrightarrow> Number (header block) < 2 ^ 64 \<longrightarrow>
              uint (pbNumber b) = Number (header block) mod 2 ^ 32)))"
proof (intro conjI)
  show "(\<forall>b s'. GetBlock s req = (OK b, s') \<longrightarrow>
      (\<exists>h. h \<in> header ` set (blocks (bc s)) \<and> pbHash b = Hash h \<and>
           (0 \<le> Number h \<longrightarrow> Number h < 2 ^ 64 \<longrightarrow> uint (pbNumber b) = Number h mod 2 ^ 32)))"
  proof (intro allI impI)
    fix b s' assume "GetBlock s req = (OK b, s')"
    then obtain i where "getBlockFromIdentifier (bc s) i = Inr b"
      by (auto simp: GetBlock_def split: option.splits sum.splits)
    from getBlockFromIdentifier_Inr [OF this] ethHeaderToExecutionBlock_number
    show "\<exists>h. h \<in> header ` set (blocks (bc s)) \<and> pbHash b = Hash h \<and>
             (0 \<le> Number h \<longrightarrow> Number h < 2 ^ 64 \<longrightarrow> uint (pbNumber b) = Number h mod 2 ^ 32)"
      by blast
  qed
next
  show "(\<forall>bs s'. BatchGetBlocks s ids = (OK bs, s') \<longrightarrow>
      (\<forall>b \<in> set bs. \<exists>h. h \<in> header ` set (blocks (bc s)) \<and> pbHash b = Hash h \<and>
           (0 \<le> Number h \<longrightarrow> Number h < 2 ^ 64 \<longrightarrow> uint (pbNumber b) = Number h mod 2 ^ 32)))"
  proof (intro allI impI)
    fix bs s' assume "BatchGetBlocks s ids = (OK bs, s')"
    then have l: "batchGetBlocksLoop (bc s) ids [] = Inr bs"
      by (auto simp: BatchGetBlocks_def split: if_splits sum.splits)
    show "\<forall>b \<in> set bs. \<exists>h. h \<in> header ` set (blocks (bc s)) \<and> pbHash b = Hash h \<and>
             (0 \<le> Number h \<longrightarrow> Number h < 2 ^ 64 \<longrightarrow> uint (pbNumber b) = Number h mod 2 ^ 32)"
    proof
      fix b assume "b \<in> set bs"
      from batchGetBlocksLoop_Inr [OF l this] ethHeaderToExecutionBlock_number
      show "\<exists>h. h \<in> header ` set (blocks (bc s)) \<and> pbHash b = Hash h \<and>
             (0 \<le> Number h \<longrightarrow> Number h < 2 ^ 64 \<longrightarrow> uint (pbNumber b) = Number h mod 2 ^ 32)"
        by force
    qed
  qed
next
  show "(\<forall>cs s'. GetCommitmentState s = (OK cs, s') \<longrightarrow>
      (\<exists>hs hf soft firm.
          currentSafeBlock (bc s) = Some hs \<and> currentFinalBlock (bc s) = Some hf \<and>
          Soft cs = Some soft \<and> Firm cs = Some firm \<and>
          (0 \<le> Number hs \<longrightarrow> Number hs < 2 ^ 64 \<longrightarrow> uint (pbNumber soft) = Number hs mod 2 ^ 32) \<and>
          (0 \<le> Number hf \<longrightarrow> Number hf < 2 ^ 64 \<longrightarrow> uint (pbNumber firm) = Number hf mod 2 ^ 32)))"
    by (auto simp: GetCommitmentState_def ethHeaderToExecutionBlock_def Let_def uint32_of_Int64
             split: option.splits sum.splits)
next
  show "(\<forall>b s'. ExecuteBlock env s ereq = (OK b, s') \<longrightarrow>
      (\<exists>block. blocks (bc s') = blocks (bc s) @ [block] \<and> pbHash b = Block_Hash block \<and>
           (0 \<le> Number (header block) \<longrightarrow> Number (header block) < 2 ^ 64 \<longrightarrow>
              uint (pbNumber b) = Number (header block) mod 2 ^ 32)))"
  proof (intro allI impI)
    fix b s' assume "ExecuteBlock env s ereq = (OK b, s')"
    from ExecuteBlock_OK_D [OF this]
    show "\<exists>block. blocks (bc s') = blocks (bc s) @ [block] \<and> pbHash b = Block_Hash block \<and>
             (0 \<le> Number (header block) \<longrightarrow> Number (header block) < 2 ^ 64 \<longrightarrow>
                uint (pbNumber b) = Number (header block) mod 2 ^ 32)"
      by (auto simp: postAdvanceConfig_frame NumberU64_def uint32_of_Uint64)
  qed
next
  show "(\<forall>h. GetHeaderByHash (bc s) (BytesToHash hash) = Some h \<longrightarrow>
      (\<exists>b. GetBlock s \<lparr>Identifier = Some (BlockIdentifier_BlockHash hash)\<rparr> = (OK b, s) \<and>
           pbHash b = Hash h \<and>
           (0 \<le> Number h \<longrightarrow> Number h < 2 ^ 64 \<longrightarrow> uint (pbNumber b) = Number h mod 2 ^ 32)))"
    by (simp add: GetBlock_def getBlockFromIdentifier_def ethHeaderToExecutionBlock_def
                  uint32_of_Int64)
next
  show "(\<forall>h. GetHeaderByNumber (bc s) (ucast n) = Some h \<longrightarrow>
      (\<exists>b. GetBlock s \<lparr>Identifier = Some (BlockIdentifier_BlockNumber n)\<rparr> = (OK b, s) \<and>
           pbHash b = Hash h \<and>
           (0 \<le> Number h \<longrightarrow> Number h < 2 ^ 64 \<longrightarrow> uint (pbNumber b) = Number h mod 2 ^ 32)))"
    by (simp add: GetBlock_def getBlockFromIdentifier_def ethHeaderToExecutionBlock_def
                  uint32_of_Int64)
next
  show "(\<forall>hs. ids \<noteq> [] \<longrightarrow>
      list_all2 (\<lambda>i h. (case i of
                          BlockIdentifier_BlockNumber n \<Rightarrow> GetHeaderByNumber (bc s) (ucast n)
                        | BlockIdentifier_BlockHash x \<Rightarrow> GetHeaderByHash (bc s) (BytesToHash x)
                        | BlockIdentifier_Unset \<Rightarrow> None) = Some h) ids hs \<longrightarrow>
      (\<exists>bs. BatchGetBlocks s ids = (OK bs, s) \<and>
            list_all2 (\<lambda>h b. pbHash b = Hash h \<and>
                 (0 \<le> Number h \<longrightarrow> Number h < 2 ^ 64 \<longrightarrow> uint (pbNumber b) = Number h mod 2 ^ 32))
              hs bs))"
  proof (intro allI impI)
    fix hs
    assume ne: "ids \<noteq> []"
      and f: "list_all2 (\<lambda>i h. (case i of
                          BlockIdentifier_BlockNumber n \<Rightarrow> GetHeaderByNumber (bc s) (ucast n)
                        | BlockIdentifier_BlockHash x \<Rightarrow> GetHeaderByHash (bc s) (BytesToHash x)
                        | BlockIdentifier_Unset \<Rightarrow> None) = Some h) ids hs"
    from batchGetBlocksLoop_found [OF f, of "[]"]
    obtain bs where bs: "batchGetBlocksLoop (bc s) ids [] = Inr bs"
        "list_all2 (\<lambda>h b. pbHash b = Hash h \<and>
                 (0 \<le> Number h \<longrightarrow> uint (pbNumber b) = Number h mod 2 ^ 32)) hs bs"
      by auto
    have "BatchGetBlocks s ids = (OK bs, s)"
      using ne bs(1) by (simp add: BatchGetBlocks_def)
    moreover have "list_all2 (\<lambda>h b. pbHash b = Hash h \<and>
                 (0 \<le> Number h \<longrightarrow> Number h < 2 ^ 64 \<longrightarrow> uint (pbNumber b) = Number h mod 2 ^ 32))
              hs bs"
      using bs(2) by (rule list_all2_mono) simp
    ultimately show "\<exists>bs. BatchGetBlocks s ids = (OK bs, s) \<and>
            list_all2 (\<lambda>h b. pbHash b = Hash h \<and>
                 (0 \<le> Number h \<longrightarrow> Number h < 2 ^ 64 \<longrightarrow> uint (pbNumber b) = Number h mod 2 ^ 32))
              hs bs"
      by blast
  qed
next
  show "(\<forall>hs hf. currentSafeBlock (bc s) = Some hs \<longrightarrow> currentFinalBlock (bc s) = Some hf \<longrightarrow>
      (\<exists>soft firm. fst (GetCommitmentState s) =
            OK \<lparr>Soft = Some soft, Firm = Some firm, BaseCelestiaHeight = baseCelestiaHeight (bc s)\<rparr> \<and>
          pbHash soft = Hash hs \<and> pbHash firm = Hash hf \<and>
          (0 \<le> Number hs \<longrightarrow> Number hs < 2 ^ 64 \<longrightarrow> uint (pbNumber soft) = Number hs mod 2 ^ 32) \<and>
          (0 \<le> Number hf \<longrightarrow> Number hf < 2 ^ 64 \<longrightarrow> uint (pbNumber firm) = Number hf mod 2 ^ 32)))"
    by (simp add: GetCommitmentState_def ethHeaderToExecutionBlock_def Let_def uint32_of_Int64)
next
  show "(\<forall>seqRef payload block.
      length (PrevBlockHash ereq) = 32 \<longrightarrow> 0 <s GetSeconds (reqTimestamp ereq) \<longrightarrow>
      syncMethodsCalled s \<longrightarrow> PrevBlockHash ereq = Header_Hash (currentSafeBlock (bc s)) \<longrightarrow>
      sequencerHashRef env (bigInt_Uint64 (Number (currentBlock (bc s))) + 1) ereq = Inr seqRef \<longrightarrow>
      BuildPayload env (bc s)
        (UnbundleRollupDataTransactions env (Transactions ereq)
           (bigInt_Uint64 (Number (currentBlock (bc s))) + 1) (PrevBlockHash ereq))
        \<lparr>Parent = PrevBlockHash ereq, argTimestamp = GetSeconds (reqTimestamp ereq),
         Random = zeroHash, FeeRecipient = nextFeeRecipient s, IsOptimisticExecution = False,
         BeaconRoot = seqRef\<rparr> = Inr payload \<longrightarrow>
      ExecutableDataToBlock env payload seqRef = Inr block \<longrightarrow>
      insertError env (bc s) block = None \<longrightarrow>
      (\<exists>b s'. ExecuteBlock env s ereq = (OK b, s') \<and> pbHash b = Block_Hash block \<and>
           (0 \<le> Number (header block) \<longrightarrow> Number (header block) < 2 ^ 64 \<longrightarrow>
              uint (pbNumber b) = Number (header block) mod 2 ^ 32)))"
  proof (intro allI impI)
    fix seqRef payload block
    assume a: "length (PrevBlockHash ereq) = 32" "0 <s GetSeconds (reqTimestamp ereq)"
      "syncMethodsCalled s" "PrevBlockHash ereq = Header_Hash (currentSafeBlock (bc s))"
      "sequencerHashRef env (bigInt_Uint64 (Number (currentBlock (bc s))) + 1) ereq = Inr seqRef"
      "BuildPayload env (bc s)
        (UnbundleRollupDataTransactions env (Transactions ereq)
           (bigInt_Uint64 (Number (currentBlock (bc s))) + 1) (PrevBlockHash ereq))
        \<lparr>Parent = PrevBlockHash ereq, argTimestamp = GetSeconds (reqTimestamp ereq),
         Random = zeroHash, FeeRecipient = nextFeeRecipient s, IsOptimisticExecution = False,
         BeaconRoot = seqRef\<rparr> = Inr payload"
      "ExecutableDataToBlock env payload seqRef = Inr block"
      "insertError env (bc s) block = None"
    from ExecuteBlock_OK_I [OF a]
    show "\<exists>b s'. ExecuteBlock env s ereq = (OK b, s') \<and> pbHash b = Block_Hash block \<and>
           (0 \<le> Number (header block) \<longrightarrow> Number (header block) < 2 ^ 64 \<longrightarrow>
              uint (pbNumber b) = Number (header block) mod 2 ^ 32)"
      by (simp add: NumberU64_def uint32_of_Uint64)
  qed
qed

text \<open>
  The block at height \<open>2 ^ 32 + 5\<close> is returned with the number 5, by \<^verbatim>\<open>GetBlock\<close> and in
  the commitment state, and the block built on it is returned with the number 6.
\<close>

theorem wire_block_number_mod_witness:
  "(\<exists>b. GetBlock tallState \<lparr>Identifier = Some (BlockIdentifier_BlockHash (hashN 77))\<rparr> = (OK b, tallState)
       \<and> uint (pbNumber b) = 5)
   \<and> (\<exists>bs. BatchGetBlocks tallState [BlockIdentifier_BlockHash (hashN 77)] = (OK bs, tallState)
       \<and> list_all2 (\<lambda>h b. uint (pbNumber b) = 5) [header (mkBlock 4294967301 0 77)] bs)
   \<and> (\<exists>b s'. ExecuteBlock testEnv tallState tallRequest = (OK b, s') \<and> uint (pbNumber b) = 6)"
proof -
  let ?h = "header (mkBlock 4294967301 0 77)"
  let ?blk = "\<lparr>header = \<lparr>Number = 4294967302, ParentHash = hashN 77, Time = 30,
                          Hash = replicate 32 185\<rparr>\<rparr>"
  have g: "GetHeaderByHash (bc tallState) (BytesToHash (hashN 77)) = Some ?h"
    by (simp add: test_defs model_defs)
  have n: "Number ?h = 4294967301" "(0::int) \<le> 4294967301" "(4294967301::int) < 2 ^ 64"
      "(4294967301::int) mod 2 ^ 32 = 5"
    by (simp_all add: test_defs)
  have l: "[BlockIdentifier_BlockHash (hashN 77)] \<noteq> []"
      "list_all2 (\<lambda>i h. (case i of
                          BlockIdentifier_BlockNumber n \<Rightarrow> GetHeaderByNumber (bc tallState) (ucast n)
                        | BlockIdentifier_BlockHash x \<Rightarrow> GetHeaderByHash (bc tallState) (BytesToHash x)
                        | BlockIdentifier_Unset \<Rightarrow> None) = Some h)
         [BlockIdentifier_BlockHash (hashN 77)] [?h]"
    using g by simp_all
  have e: "length (PrevBlockHash tallRequest) = 32" "0 <s GetSeconds (reqTimestamp tallRequest)"
      "syncMethodsCalled tallState"
      "PrevBlockHash tallRequest = Header_Hash (currentSafeBlock (bc tallState))"
      "sequencerHashRef testEnv (bigInt_Uint64 (Number (currentBlock (bc tallState))) + 1) tallRequest
         = Inr None"
      "BuildPayload testEnv (bc tallState)
        (UnbundleRollupDataTransactions testEnv (Transactions tallRequest)
           (bigInt_Uint64 (Number (currentBlock (bc tallState))) + 1) (PrevBlockHash tallRequest))
        \<lparr>Parent = PrevBlockHash tallRequest, argTimestamp = GetSeconds (reqTimestamp tallRequest),
         Random = zeroHash, FeeRecipient = nextFeeRecipient tallState, IsOptimisticExecution = False,
         BeaconRoot = None\<rparr> = Inr ?blk"
      "ExecutableDataToBlock testEnv ?blk None = Inr ?blk"
      "insertError testEnv (bc tallState) ?blk = None"
    by (simp_all add: test_defs model_defs)
  have m: "Number (header ?blk) = 4294967302" "(0::int) \<le> 4294967302"
      "(4294967302::int) < 2 ^ 64" "(4294967302::int) mod 2 ^ 32 = 6"
    by simp_all
  note t = wire_block_number_mod [where s = tallState and hash = "hashN 77"
             and ids = "[BlockIdentifier_BlockHash (hashN 77)]" and env = testEnv
             and ereq = tallRequest]
  note t4 = t [THEN conjunct2, THEN conjunct2, THEN conjunct2, THEN conjunct2]
  note byHash = t4 [THEN conjunct1]
  note batch = t4 [THEN conjunct2, THEN conjunct2, THEN conjunct1]
  note exec = t4 [THEN conjunct2, THEN conjunct2, THEN conjunct2, THEN conjunct2]
  from byHash [rule_format, OF g] n
  have 1: "\<exists>b. GetBlock tallState \<lparr>Identifier = Some (BlockIdentifier_BlockHash (hashN 77))\<rparr>
                 = (OK b, tallState) \<and> uint (pbNumber b) = 5"
    by auto
  from batch [rule_format, OF l] n
  have 2: "\<exists>bs. BatchGetBlocks tallState [BlockIdentifier_BlockHash (hashN 77)] = (OK bs, tallState)
       \<and> list_all2 (\<lambda>h b. uint (pbNumber b) = 5) [?h] bs"
    by (auto simp: list_all2_Cons1)
  from exec [rule_format, OF e] m
  have 3: "\<exists>b s'. ExecuteBlock testEnv tallState tallRequest = (OK b, s') \<and> uint (pbNumber b) = 6"
    by auto
  from 1 2 3 show ?thesis by blast
qed

subsection \<open>Further properties of the service\<close>

text \<open>
  After every accepted \<^verbatim>\<open>UpdateCommitmentState\<close> the head, the safe pointer and the final
  pointer carry the soft and firm hashes of the request, and the engine is marked synced:
  the soft head is the head.
\<close>

theorem UpdateCommitmentState_head_is_soft:
  assumes "UpdateCommitmentState env s req = (OK cs, s')"
  shows "\<exists>soft firm. Soft cs = Some soft \<and> Firm cs = Some firm \<and>
           Hash (currentBlock (bc s')) = pbHash soft \<and>
           Header_Hash (currentSafeBlock (bc s')) = pbHash soft \<and>
           Header_Hash (currentFinalBlock (bc s')) = pbHash firm \<and> synced s'"
proof -
  from UpdateCommitmentState_OK_D [OF assms]
  obtain cs0 soft firm softBlock firmBlock c1 where
    d: "reqCommitmentState req = Some cs0" "Soft cs0 = Some soft" "Firm cs0 = Some firm"
       "GetBlockByHash (bc s) (pbHash soft) = Some softBlock"
       "GetBlockByHash (bc s) (pbHash firm) = Some firmBlock"
       "(Hash (currentBlock (bc s)) = pbHash soft \<and> c1 = bc s) \<or>
          SetCanonical (setCanonicalError env) (bc s) softBlock = Inr c1"
       "commitPointers s c1 cs0 (pbHash soft) (pbHash firm) softBlock firmBlock = (OK cs, s')"
    by blast
  have h: "Hash (currentBlock c1) = pbHash soft"
    using d(6) SetCanonical_Inr GetBlockByHash_Some [OF d(4)]
    by (auto simp: Block_Hash_def)
  from commitPointers_D [OF d(7)]
  have p: "cs = cs0" "currentBlock (bc s') = currentBlock c1"
      "s' = s\<lparr>bc := bc s', synced := True\<rparr>"
    by simp_all
  from commitPointers_hashes [OF d(7)] GetBlockByHash_Some [OF d(4)] GetBlockByHash_Some [OF d(5)]
  have q: "Header_Hash (currentSafeBlock (bc s')) = pbHash soft"
      "Header_Hash (currentFinalBlock (bc s')) = pbHash firm"
    by simp_all
  have "synced s'" by (subst p(3)) simp
  with d(2,3) p(1,2) q h show ?thesis by simp
qed

theorem UpdateCommitmentState_head_is_soft_witness:
  "Hash (currentBlock (bc (snd (UpdateCommitmentState testEnv testState
      (testUpdate (wireBlock 2 12 13) (wireBlock 1 1 12) 9))))) = hashN 13"
proof -
  let ?req = "testUpdate (wireBlock 2 12 13) (wireBlock 1 1 12) 9"
  let ?cs = "\<lparr>Soft = Some (wireBlock 2 12 13), Firm = Some (wireBlock 1 1 12),
              BaseCelestiaHeight = 9\<rparr>"
  have a: "UpdateCommitmentState testEnv testState ?req
             = (OK ?cs, snd (UpdateCommitmentState testEnv testState ?req))"
    by (simp add: test_defs model_defs)
  from UpdateCommitmentState_head_is_soft [OF a] show ?thesis
    by (auto simp: wireBlock_def)
qed

lemma replicate_nilHeaderHash: "k \<noteq> 29 \<Longrightarrow> replicate 32 k \<noteq> nilHeaderHash"
proof
  assume k: "k \<noteq> 29" and e: "replicate 32 k = nilHeaderHash"
  from e have "hd (replicate 32 k) = hd nilHeaderHash" by simp
  then have "k = 29" by (simp add: nilHeaderHash_def)
  with k show False by simp
qed

text \<open>
  Nil pointers are hashed, not dereferenced. With the safe and final pointers nil,
  \<^verbatim>\<open>ExecuteBlock\<close> on block 2 fails with \<open>FailedPrecondition\<close>, the read of the commitment
  state fails with \<open>Internal\<close>, and \<^verbatim>\<open>UpdateCommitmentState\<close> sets both pointers and the
  Celestia height and returns OK.
\<close>

theorem nil_pointers_are_hashed:
  "ExecuteBlock testEnv nilState testRequest = (Err FailedPrecondition, nilState)
   \<and> fst (GetCommitmentState nilState) = Err Internal
   \<and> fst (UpdateCommitmentState testEnv nilState (testUpdate (wireBlock 2 2 3) (wireBlock 1 1 2) 9))
       = OK \<lparr>Soft = Some (wireBlock 2 2 3), Firm = Some (wireBlock 1 1 2), BaseCelestiaHeight = 9\<rparr>
   \<and> fst (GetCommitmentState (snd (UpdateCommitmentState testEnv nilState
            (testUpdate (wireBlock 2 2 3) (wireBlock 1 1 2) 9))))
       = OK \<lparr>Soft = Some (wireBlock 2 2 3), Firm = Some (wireBlock 1 1 2), BaseCelestiaHeight = 9\<rparr>"
  by (simp add: test_defs model_defs replicate_nilHeaderHash replicate_nilHeaderHash [symmetric])

text \<open>
  Where the round trip of update and read is exact: the soft and firm blocks of the
  request are the wire forms of the stored blocks of their hashes, and the call moves
  both pointers. Then the read that follows returns the commitment state of the request.
\<close>

theorem UpdateCommitmentState_round_trip:
  assumes ok: "UpdateCommitmentState env s req = (OK cs, s')"
    and cs: "Soft cs = Some soft" "Firm cs = Some firm"
    and wire: "ethHeaderToExecutionBlock (GetHeaderByHash (bc s) (pbHash soft)) = Inr soft"
      "ethHeaderToExecutionBlock (GetHeaderByHash (bc s) (pbHash firm)) = Inr firm"
    and moved: "Header_Hash (currentSafeBlock (bc s)) \<noteq> pbHash soft"
      "Header_Hash (currentFinalBlock (bc s)) \<noteq> pbHash firm"
  shows "GetCommitmentState s' = (OK cs, s'\<lparr>getCommitmentStateCalled := True\<rparr>)"
proof -
  from UpdateCommitmentState_OK_D [OF ok]
  obtain cs0 soft0 firm0 softBlock firmBlock c1 where
    d: "reqCommitmentState req = Some cs0" "Soft cs0 = Some soft0" "Firm cs0 = Some firm0"
       "GetBlockByHash (bc s) (pbHash soft0) = Some softBlock"
       "GetBlockByHash (bc s) (pbHash firm0) = Some firmBlock"
       "(Hash (currentBlock (bc s)) = pbHash soft0 \<and> c1 = bc s) \<or>
          SetCanonical (setCanonicalError env) (bc s) softBlock = Inr c1"
       "commitPointers s c1 cs0 (pbHash soft0) (pbHash firm0) softBlock firmBlock = (OK cs, s')"
    by blast
  have eq: "cs0 = cs"
    using commitPointers_D [OF d(7)] by simp
  with d(2,3) cs have sf: "soft0 = soft" "firm0 = firm" by simp_all
  have ptr: "currentSafeBlock c1 = currentSafeBlock (bc s)"
      "currentFinalBlock c1 = currentFinalBlock (bc s)"
    using d(6) SetCanonical_Inr by auto
  from commitPointers_D [OF d(7)] ptr moved sf
  have p: "currentSafeBlock (bc s') = Some (header softBlock)"
      "currentFinalBlock (bc s') = Some (header firmBlock)"
      "baseCelestiaHeight (bc s') = BaseCelestiaHeight cs"
    using eq by simp_all
  from wire d(4,5) sf
  have w: "ethHeaderToExecutionBlock (Some (header softBlock)) = Inr soft"
      "ethHeaderToExecutionBlock (Some (header firmBlock)) = Inr firm"
    by (simp_all add: GetHeaderByHash_def)
  have "cs = \<lparr>Soft = Some soft, Firm = Some firm, BaseCelestiaHeight = BaseCelestiaHeight cs\<rparr>"
    using cs by (cases cs) simp
  then show ?thesis
    using p w by (simp add: GetCommitmentState_def Let_def)
qed

text \<open>The conductor moves the soft head to the tip of the fork and the firm head to its first block.\<close>

theorem UpdateCommitmentState_round_trip_witness:
  "GetCommitmentState (snd (UpdateCommitmentState testEnv testState
        (testUpdate (wireBlock 2 12 13) (wireBlock 1 1 12) 9)))
     = (OK \<lparr>Soft = Some (wireBlock 2 12 13), Firm = Some (wireBlock 1 1 12),
            BaseCelestiaHeight = 9\<rparr>,
        (snd (UpdateCommitmentState testEnv testState
           (testUpdate (wireBlock 2 12 13) (wireBlock 1 1 12) 9)))\<lparr>getCommitmentStateCalled := True\<rparr>)"
proof -
  let ?req = "testUpdate (wireBlock 2 12 13) (wireBlock 1 1 12) 9"
  let ?cs = "\<lparr>Soft = Some (wireBlock 2 12 13), Firm = Some (wireBlock 1 1 12),
              BaseCelestiaHeight = 9\<rparr>"
  have a: "UpdateCommitmentState testEnv testState ?req
             = (OK ?cs, snd (UpdateCommitmentState testEnv testState ?req))"
    by (simp add: test_defs model_defs)
  have b: "Soft ?cs = Some (wireBlock 2 12 13)" "Firm ?cs = Some (wireBlock 1 1 12)"
    by simp_all
  have c: "ethHeaderToExecutionBlock (GetHeaderByHash (bc testState) (pbHash (wireBlock 2 12 13)))
             = Inr (wireBlock 2 12 13)"
      "ethHeaderToExecutionBlock (GetHeaderByHash (bc testState) (pbHash (wireBlock 1 1 12)))
             = Inr (wireBlock 1 1 12)"
    by (simp_all add: test_defs model_defs)
  have d: "Header_Hash (currentSafeBlock (bc testState)) \<noteq> pbHash (wireBlock 2 12 13)"
      "Header_Hash (currentFinalBlock (bc testState)) \<noteq> pbHash (wireBlock 1 1 12)"
    by (simp_all add: test_defs model_defs)
  from UpdateCommitmentState_round_trip [OF a b c d] show ?thesis .
qed

text \<open>
  A successful \<^verbatim>\<open>ExecuteBlock\<close> appends exactly one block to the chain store, the block
  the payload builder made on the soft head, and returns its number and hash. The head,
  the safe and final pointers, the canonical mapping and the Celestia height are
  unchanged, and the ordered list of the pool is empty. With a payload builder that
  builds on its parent and a safe pointer on a stored block, the block stands one above
  the soft head, which is \<open>current_head.number + 1\<close> when the soft head stands at the
  height of the head.
\<close>

theorem ExecuteBlock_appends_on_soft_head:
  assumes ok: "ExecuteBlock env s req = (OK res, s')"
    and engine: "buildsOnParent env"
    and safe: "currentSafeBlock (bc s) = Some safe"
    and stored: "GetHeaderByHash (bc s) (Hash safe) = Some safe"
  shows "\<exists>block.
    blocks (bc s') = blocks (bc s) @ [block] \<and>
    Block_ParentHash block = Hash safe \<and> Number (header block) = Number safe + 1 \<and>
    (Number safe = Number (currentBlock (bc s)) \<longrightarrow>
       Number (header block) = Number (currentBlock (bc s)) + 1) \<and>
    pbNumber res = ucast (NumberU64 block) \<and> pbHash res = Block_Hash block \<and>
    currentBlock (bc s') = currentBlock (bc s) \<and>
    currentSafeBlock (bc s') = currentSafeBlock (bc s) \<and>
    currentFinalBlock (bc s') = currentFinalBlock (bc s) \<and>
    canonical (bc s') = canonical (bc s) \<and>
    baseCelestiaHeight (bc s') = baseCelestiaHeight (bc s) \<and>
    astriaOrdered s' = []"
proof -
  from ExecuteBlock_OK_D [OF ok] safe
  obtain seqRef payload block where
    d: "PrevBlockHash req = Hash safe"
       "BuildPayload env (bc s)
         (UnbundleRollupDataTransactions env (Transactions req)
            (bigInt_Uint64 (Number (currentBlock (bc s))) + 1) (PrevBlockHash req))
         \<lparr>Parent = PrevBlockHash req, argTimestamp = GetSeconds (reqTimestamp req),
          Random = zeroHash, FeeRecipient = nextFeeRecipient s, IsOptimisticExecution = False,
          BeaconRoot = seqRef\<rparr> = Inr payload"
       "ExecutableDataToBlock env payload seqRef = Inr block"
       "res = \<lparr>pbNumber = ucast (NumberU64 block), pbHash = Block_Hash block,
              pbParentBlockHash = Block_ParentHash block,
              pbTimestamp = Some \<lparr>Seconds = Block_Time block\<rparr>\<rparr>"
       "s' = postAdvanceConfig env (AstriaSequencerAddressPrefix env) (ucast (NumberU64 block))
              (s\<lparr>bc := (bc s)\<lparr>blocks := blocks (bc s) @ [block]\<rparr>, astriaOrdered := []\<rparr>)"
    by (auto simp: Header_Hash_def)
  from engine d(2,3) stored d(1)
  have b: "Block_ParentHash block = Hash safe \<and> Number (header block) = Number safe + 1"
    unfolding buildsOnParent_def by fastforce
  show ?thesis
    using b d(4,5) by (auto simp: postAdvanceConfig_frame)
qed

text \<open>Block 3 is appended on the soft head, block 2.\<close>

theorem ExecuteBlock_appends_on_soft_head_witness:
  "\<exists>block.
    blocks (bc (snd (ExecuteBlock testEnv testState testRequest))) = blocks testChain @ [block] \<and>
    Block_ParentHash block = hashN 3 \<and> Number (header block) = 3 \<and>
    currentBlock (bc (snd (ExecuteBlock testEnv testState testRequest))) = currentBlock testChain \<and>
    astriaOrdered (snd (ExecuteBlock testEnv testState testRequest)) = []"
proof -
  have a: "ExecuteBlock testEnv testState testRequest =
      (fst (ExecuteBlock testEnv testState testRequest),
       snd (ExecuteBlock testEnv testState testRequest))"
    by simp
  have o: "fst (ExecuteBlock testEnv testState testRequest) =
       OK \<lparr>pbNumber = 3, pbHash = replicate 32 111, pbParentBlockHash = hashN 3,
           pbTimestamp = Some \<lparr>Seconds = 30\<rparr>\<rparr>"
    by (simp add: test_defs model_defs)
  have e: "buildsOnParent testEnv"
    by (auto simp: buildsOnParent_def testEnv_def testBuildPayload_def Block_ParentHash_def
             split: option.splits)
  have s: "currentSafeBlock (bc testState) = Some (header (mkBlock 2 2 3))"
    by (simp add: test_defs)
  have g: "GetHeaderByHash (bc testState) (Hash (header (mkBlock 2 2 3)))
             = Some (header (mkBlock 2 2 3))"
    by (simp add: test_defs model_defs)
  from ExecuteBlock_appends_on_soft_head [OF a [unfolded o] e s g] show ?thesis
    by (auto simp: test_defs)
qed

text \<open>
  The round trip of the specification: a block found by number is found again, equal, by
  the hash it was returned with (a hash of 32 bytes, as \<^verbatim>\<open>common.Hash\<close> has).
\<close>

theorem GetBlock_number_then_hash:
  assumes "GetBlock s \<lparr>Identifier = Some (BlockIdentifier_BlockNumber n)\<rparr> = (OK b, s')"
    and "length (pbHash b) = 32"
  shows "GetBlock s \<lparr>Identifier = Some (BlockIdentifier_BlockHash (pbHash b))\<rparr> = (OK b, s)"
proof -
  from assms(1) obtain h where
    h: "GetHeaderByNumber (bc s) (ucast n) = Some h" "ethHeaderToExecutionBlock (Some h) = Inr b"
    by (auto simp: GetBlock_def getBlockFromIdentifier_def split: option.splits sum.splits)
  from h(1) obtain hh where hh: "GetHeaderByHash (bc s) hh = Some h"
    by (auto simp: GetHeaderByNumber_def split: option.splits)
  then have "Hash h = hh"
    using GetBlockByHash_Some by (fastforce simp: GetHeaderByHash_def Block_Hash_def)
  moreover from h(2) have "pbHash b = Hash h"
    by (auto simp: ethHeaderToExecutionBlock_def)
  ultimately have "GetHeaderByHash (bc s) (BytesToHash (pbHash b)) = Some h"
    using hh assms(2) by (simp add: BytesToHash_32)
  with h(2) show ?thesis
    by (simp add: GetBlock_def getBlockFromIdentifier_def)
qed

theorem GetBlock_number_then_hash_witness:
  "GetBlock testState \<lparr>Identifier = Some (BlockIdentifier_BlockHash (hashN 2))\<rparr>
     = (OK (wireBlock 1 1 2), testState)"
proof -
  have a: "GetBlock testState \<lparr>Identifier = Some (BlockIdentifier_BlockNumber 1)\<rparr>
     = (OK (wireBlock 1 1 2), testState)"
    by (simp add: GetBlock_def getBlockFromIdentifier_def GetHeaderByNumber_def test_defs model_defs)
  have b: "length (pbHash (wireBlock 1 1 2)) = 32" "pbHash (wireBlock 1 1 2) = hashN 2"
    by (simp_all add: test_defs)
  from GetBlock_number_then_hash [OF a b(1)] b(2) show ?thesis by simp
qed

lemma batchGetBlocksLoop_eq:
  "batchGetBlocksLoop c ids acc = Inr bs \<longleftrightarrow>
     (\<exists>rs. map (getBlockFromIdentifier c) ids = map Inr rs \<and> bs = acc @ rs)"
proof (induction ids arbitrary: acc)
  case Nil
  then show ?case by auto
next
  case (Cons i ids)
  show ?case
  proof (cases "getBlockFromIdentifier c i")
    case (Inl e)
    then show ?thesis by (auto simp: map_eq_Cons_conv)
  next
    case (Inr b)
    then show ?thesis
      using Cons.IH [of "acc @ [b]"]
      by (auto simp: map_eq_Cons_conv Cons_eq_map_conv)
  qed
qed

text \<open>
  \<^verbatim>\<open>BatchGetBlocks\<close> returns the blocks of the identifiers in the order of the request, and
  one identifier that fails makes the whole call fail; the state is unchanged.
\<close>

theorem BatchGetBlocks_in_order:
  "(\<forall>bs s'. BatchGetBlocks s ids = (OK bs, s') \<longrightarrow>
      s' = s \<and> ids \<noteq> [] \<and> map (getBlockFromIdentifier (bc s)) ids = map Inr bs)
   \<and> (\<forall>i e. i \<in> set ids \<longrightarrow> getBlockFromIdentifier (bc s) i = Inl e \<longrightarrow>
        (\<exists>e'. BatchGetBlocks s ids = (Err e', s)))"
proof (rule conjI; intro allI impI)
  fix bs s' assume a: "BatchGetBlocks s ids = (OK bs, s')"
  then have "batchGetBlocksLoop (bc s) ids [] = Inr bs" "s' = s" "ids \<noteq> []"
    by (auto simp: BatchGetBlocks_def split: if_splits sum.splits)
  then show "s' = s \<and> ids \<noteq> [] \<and> map (getBlockFromIdentifier (bc s)) ids = map Inr bs"
    by (auto simp: batchGetBlocksLoop_eq)
next
  fix i e assume i: "i \<in> set ids" "getBlockFromIdentifier (bc s) i = Inl e"
  have "batchGetBlocksLoop (bc s) ids [] \<noteq> Inr bs" for bs
  proof
    assume "batchGetBlocksLoop (bc s) ids [] = Inr bs"
    then have "map (getBlockFromIdentifier (bc s)) ids = map Inr bs"
      by (auto simp: batchGetBlocksLoop_eq)
    then have "getBlockFromIdentifier (bc s) i \<in> set (map Inr bs)"
      using i(1) by (metis image_eqI set_map)
    with i(2) show False by auto
  qed
  with i(1) show "\<exists>e'. BatchGetBlocks s ids = (Err e', s)"
    by (cases "batchGetBlocksLoop (bc s) ids []") (auto simp: BatchGetBlocks_def)
qed

theorem BatchGetBlocks_in_order_witness:
  "(\<exists>e'. BatchGetBlocks testState
      [BlockIdentifier_BlockNumber 1, BlockIdentifier_BlockNumber 2, BlockIdentifier_BlockNumber 100]
        = (Err e', testState))
   \<and> getBlockFromIdentifier (bc testState) (BlockIdentifier_BlockNumber 100) = Inl NotFound"
proof -
  have a: "getBlockFromIdentifier (bc testState) (BlockIdentifier_BlockNumber 100) = Inl NotFound"
    by (simp add: getBlockFromIdentifier_def GetHeaderByNumber_def test_defs)
  from BatchGetBlocks_in_order [of testState "[BlockIdentifier_BlockNumber 1, BlockIdentifier_BlockNumber 2,
      BlockIdentifier_BlockNumber 100]"] a
  show ?thesis by simp
qed

text \<open>
  A failed \<^verbatim>\<open>ExecuteBlock\<close> leaves the service state as it was, but for the ordered list
  of the pool, which may hold the transactions unbundled from the request.
\<close>

theorem ExecuteBlock_failure_frame:
  "(\<forall>res. fst (ExecuteBlock env s req) \<noteq> OK res) \<longrightarrow>
     snd (ExecuteBlock env s req) = s \<or>
     snd (ExecuteBlock env s req) =
       s\<lparr>astriaOrdered :=
           UnbundleRollupDataTransactions env (Transactions req)
             (bigInt_Uint64 (Number (currentBlock (bc s))) + 1) (BytesToHash (PrevBlockHash req))\<rparr>"
  by (auto simp: ExecuteBlock_def Let_def SetAstriaOrdered_def
           split: option.splits sum.splits if_splits)

theorem ExecuteBlock_failure_frame_witness:
  "snd (ExecuteBlock failingEnv testState testRequest) = testState\<lparr>astriaOrdered := [[1, 2]]\<rparr>"
proof -
  have a: "fst (ExecuteBlock failingEnv testState testRequest) = Err InvalidArgument"
    by (simp add: test_defs model_defs)
  have b: "testState\<lparr>astriaOrdered := [[1, 2]]\<rparr> \<noteq> testState"
    by (simp add: test_defs)
  have c: "UnbundleRollupDataTransactions failingEnv (Transactions testRequest)
             (bigInt_Uint64 (Number (currentBlock (bc testState))) + 1)
             (BytesToHash (PrevBlockHash testRequest)) = [[1, 2]]"
    by (simp add: test_defs)
  have d: "snd (ExecuteBlock failingEnv testState testRequest) \<noteq> testState"
    by (simp add: test_defs model_defs)
  from ExecuteBlock_failure_frame [of failingEnv testState testRequest] a c d show ?thesis by simp
qed

end
